theory Spec2Isabelle
  imports Main "HOL-Library.Sublist"
begin

section \<open>The chat client of \<^verbatim>\<open>src/components/ChatInterface.tsx\<close>\<close>

text \<open>
  The component keeps six pieces of React state and changes them in event handlers.
  Each handler is embedded as a function from the state before the event to the state
  after it, together with the list of effects the handler issued on the outside world
  (an alert, a write to the clipboard, a download, the HTTP request).

  JavaScript strings are modelled as \<^typ>\<open>string\<close>; a \<^typ>\<open>char\<close> stands for a
  code unit below 256, and the string functions of the platform are modelled on that
  range.
\<close>

subsection \<open>Platform string functions\<close>

text \<open>
  \<^verbatim>\<open>String.prototype.toLowerCase\<close> on code units below 256: the letters A to Z and the
  capital letters of Latin-1 (0xC0 to 0xDE, the multiplication sign 0xD7 apart) move up
  by 32, every other code unit stays.
\<close>

definition toLowerCase_char :: "char \<Rightarrow> char" where
  "toLowerCase_char c =
     (let n = (of_char c :: nat)
      in if (65 \<le> n \<and> n \<le> 90) \<or> (192 \<le> n \<and> n \<le> 222 \<and> n \<noteq> 215)
         then char_of (n + 32) else c)"

definition toLowerCase :: "string \<Rightarrow> string" where
  "toLowerCase s = map toLowerCase_char s"

text \<open>\<^verbatim>\<open>String.prototype.endsWith\<close>.\<close>

definition endsWith :: "string \<Rightarrow> string \<Rightarrow> bool" where
  "endsWith s t = (length t \<le> length s \<and> drop (length s - length t) s = t)"

text \<open>
  \<^verbatim>\<open>String.prototype.trim\<close> strips white space and line terminators from both ends;
  below 256 these are TAB, LF, VT, FF, CR, SPACE and NO-BREAK SPACE.
\<close>

definition isWhiteSpace :: "char \<Rightarrow> bool" where
  "isWhiteSpace c =
     (c \<in> set [CHR 0x09, CHR 0x0A, CHR 0x0B, CHR 0x0C, CHR 0x0D, CHR 0x20, CHR 0xA0])"

definition trim :: "string \<Rightarrow> string" where
  "trim s = rev (dropWhile isWhiteSpace (rev (dropWhile isWhiteSpace s)))"

text \<open>\<^verbatim>\<open>Number.prototype.toString\<close> on a non-negative integer, and on an integer.\<close>

function toString_nat :: "nat \<Rightarrow> string" where
  "toString_nat n =
     (if n < 10 then [''0123456789'' ! n]
      else toString_nat (n div 10) @ [''0123456789'' ! (n mod 10)])"
  by pat_completeness auto
termination
  by (relation "measure id") auto

declare toString_nat.simps [simp del]

definition toString_int :: "int \<Rightarrow> string" where
  "toString_int i =
     (if i < 0 then CHR ''-'' # toString_nat (nat (- i)) else toString_nat (nat i))"

text \<open>\<^verbatim>\<open>Array.prototype.join\<close> on strings.\<close>

fun join :: "string \<Rightarrow> string list \<Rightarrow> string" where
  "join sep [] = []"
| "join sep [x] = x"
| "join sep (x # y # ys) = x @ sep @ join sep (y # ys)"

text \<open>
  \<^verbatim>\<open>Array.prototype.filter\<close> and \<^verbatim>\<open>Array.prototype.map\<close> with the callback's
  second argument, the index: the loop over the array, counting from \<open>i\<close>.
\<close>

fun filter_from :: "('a \<Rightarrow> nat \<Rightarrow> bool) \<Rightarrow> nat \<Rightarrow> 'a list \<Rightarrow> 'a list" where
  "filter_from p i [] = []"
| "filter_from p i (x # xs) =
     (if p x i then x # filter_from p (Suc i) xs else filter_from p (Suc i) xs)"

fun map_from :: "('a \<Rightarrow> nat \<Rightarrow> 'b) \<Rightarrow> nat \<Rightarrow> 'a list \<Rightarrow> 'b list" where
  "map_from f i [] = []"
| "map_from f i (x # xs) = f x i # map_from f (Suc i) xs"

subsection \<open>JSON values and \<^verbatim>\<open>JSON.stringify\<close>\<close>

text \<open>
  The values the component serialises: the template object (objects, arrays, strings
  and small integers) and the chat history (an array of the objects the backend sent).
  An object is the list of its properties in the order \<^verbatim>\<open>JSON.stringify\<close> visits
  them. A number is an integer that JavaScript prints in plain decimal; fractions are
  not modelled.
\<close>

datatype json =
    JNull
  | JBool bool
  | JNumber int
  | JString string
  | JArray "json list"
  | JObject "(string \<times> json) list"

text \<open>
  \<^verbatim>\<open>QuoteJSONString\<close> of ECMA-262: the two-character escapes, \<^verbatim>\<open>\u00XX\<close> for the
  other control characters, every other code unit as it is.
\<close>

definition quote_char :: "char \<Rightarrow> string" where
  "quote_char c =
     (let n = (of_char c :: nat) in
      if n = 8 then [CHR 0x5C, CHR ''b'']
      else if n = 9 then [CHR 0x5C, CHR ''t'']
      else if n = 10 then [CHR 0x5C, CHR ''n'']
      else if n = 12 then [CHR 0x5C, CHR ''f'']
      else if n = 13 then [CHR 0x5C, CHR ''r'']
      else if n = 34 then [CHR 0x5C, CHR 0x22]
      else if n = 92 then [CHR 0x5C, CHR 0x5C]
      else if n < 32 then
        [CHR 0x5C, CHR ''u'', CHR ''0'', CHR ''0'',
         ''0123456789abcdef'' ! (n div 16), ''0123456789abcdef'' ! (n mod 16)]
      else [c])"

definition QuoteJSONString :: "string \<Rightarrow> string" where
  "QuoteJSONString s = [CHR 0x22] @ concat (map quote_char s) @ [CHR 0x22]"

text \<open>
  \<^verbatim>\<open>SerializeJSONProperty\<close> with \<^verbatim>\<open>SerializeJSONObject\<close> and
  \<^verbatim>\<open>SerializeJSONArray\<close> of ECMA-262, for the gap string \<open>gap\<close> and the current
  indentation \<open>indent\<close>.
\<close>

fun SerializeJSONProperty :: "string \<Rightarrow> string \<Rightarrow> json \<Rightarrow> string" where
  "SerializeJSONProperty gap indent JNull = ''null''"
| "SerializeJSONProperty gap indent (JBool b) = (if b then ''true'' else ''false'')"
| "SerializeJSONProperty gap indent (JNumber i) = toString_int i"
| "SerializeJSONProperty gap indent (JString s) = QuoteJSONString s"
| "SerializeJSONProperty gap indent (JArray vs) =
     (let stepback = indent; indent = indent @ gap;
          partial = map (\<lambda>v. SerializeJSONProperty gap indent v) vs
      in if partial = [] then ''[]''
         else if gap = [] then ''['' @ join '','' partial @ '']''
         else ''['' @ [CHR 0x0A] @ indent @ join ('','' @ [CHR 0x0A] @ indent) partial
              @ [CHR 0x0A] @ stepback @ '']'')"
| "SerializeJSONProperty gap indent (JObject ps) =
     (let stepback = indent; indent = indent @ gap;
          partial = map (\<lambda>p. QuoteJSONString (fst p) @ '':''
                              @ (if gap \<noteq> [] then '' '' else [])
                              @ SerializeJSONProperty gap indent (snd p)) ps
      in if partial = [] then ''{}''
         else if gap = [] then ''{'' @ join '','' partial @ ''}''
         else ''{'' @ [CHR 0x0A] @ indent @ join ('','' @ [CHR 0x0A] @ indent) partial
              @ [CHR 0x0A] @ stepback @ ''}'')"

text \<open>
  \<^verbatim>\<open>JSON.stringify(value, null, space)\<close> for a numeric \<open>space\<close> (at most ten
  spaces of indentation); \<^verbatim>\<open>JSON.stringify(value)\<close> is the case \<open>space = 0\<close>.
\<close>

definition JSON_stringify :: "json \<Rightarrow> nat \<Rightarrow> string" where
  "JSON_stringify v space = SerializeJSONProperty (replicate (min 10 space) CHR '' '') [] v"

subsection \<open>Data model\<close>

text \<open>The browser's \<^verbatim>\<open>File\<close> object, with the three properties the component reads.\<close>

record js_file =
  file_name :: string
  file_size :: nat
  file_type :: string

text \<open>\<^verbatim>\<open>interface FileAttachment\<close>.\<close>

record file_attachment =
  att_id :: string
  att_name :: string
  att_size :: nat
  att_type :: string
  att_url :: string

datatype sender = User | Bot

text \<open>
  \<^verbatim>\<open>interface Message\<close>. A \<^verbatim>\<open>Date\<close> is its number of milliseconds since the
  epoch; the optional \<^verbatim>\<open>files\<close> is \<^const>\<open>None\<close> when undefined.
\<close>

record message =
  msg_id :: string
  text_of :: string
  sender_of :: sender
  timestamp :: nat
  files :: "file_attachment list option"

text \<open>
  \<^verbatim>\<open>interface ChatMessage\<close>. The interface is a compile-time type only: the
  component never builds or reads an entry of the chat history, it keeps the objects of
  \<^verbatim>\<open>response.data.chat_history\<close> as they were received and serialises them again.
  An entry is therefore the JSON object the backend sent, with its properties in its
  own order and any further property it carries.
\<close>

type_synonym chat_message = json

text \<open>\<^verbatim>\<open>interface ChatResponse\<close>.\<close>

record chat_response =
  resp_message :: string
  resp_chat_history :: "chat_message list"
  resp_error :: "string option"

text \<open>The \<^verbatim>\<open>useState\<close> cells of the component.\<close>

record chat_state =
  messages :: "message list"
  inputValue :: string
  isLoading :: bool
  selectedFiles :: "js_file list"
  showJsonTemplate :: bool
  chatHistory :: "chat_message list"

subsection \<open>Fresh load\<close>

definition greeting :: string where
  "greeting = ''Hello! I'm your DB Assistant. I can help you analyze database performance logs. To get started, please upload your database logs using the JSON template format. Click the 'JSON Template' button above to see the required format and download a template file.''"

text \<open>
  The initial values handed to \<^verbatim>\<open>useState\<close>; \<open>now\<close> is the reading of
  \<^verbatim>\<open>new Date()\<close> at the first render.
\<close>

definition initial_state :: "nat \<Rightarrow> chat_state" where
  "initial_state now =
     \<lparr> messages =
         [\<lparr> msg_id = ''1'', text_of = greeting, sender_of = Bot, timestamp = now,
            files = None \<rparr>],
       inputValue = [],
       isLoading = False,
       selectedFiles = [],
       showJsonTemplate = False,
       chatHistory = [] \<rparr>"

subsection \<open>The outside world\<close>

text \<open>
  A value thrown in JavaScript, as far as the component tells them apart: an instance
  of \<^verbatim>\<open>Error\<close> with its message, or anything else.
\<close>

datatype js_error = Error string | NonError

text \<open>The multipart body of the request: the fields \<^verbatim>\<open>message\<close>,
  \<^verbatim>\<open>chat_history\<close> and, when appended, \<^verbatim>\<open>file\<close>.\<close>

record form_data =
  fd_message :: string
  fd_chat_history :: string
  fd_file :: "js_file option"

text \<open>
  What a handler does to the world besides setting state: \<^verbatim>\<open>alert\<close>, the reset of
  the file input, \<^verbatim>\<open>navigator.clipboard.writeText\<close>, \<^verbatim>\<open>toast\<close>,
  \<^verbatim>\<open>console.error\<close>, the download of a blob (file name, MIME type, content) and
  \<^verbatim>\<open>axios.post\<close> (URL, body).
\<close>

datatype effect =
    Alert string
  | ResetFileInput
  | ClipboardWrite string
  | Toast string
  | ConsoleError string
  | Download string string string
  | Post string form_data

subsection \<open>Staging files\<close>

text \<open>A file is JSON-named when its name, in lower case, ends with \<^verbatim>\<open>.json\<close>.\<close>

definition isJsonFile :: "js_file \<Rightarrow> bool" where
  "isJsonFile file = endsWith (toLowerCase (file_name file)) ''.json''"

text \<open>
  \<^verbatim>\<open>handleFileSelect\<close>. The argument is \<^verbatim>\<open>event.target.files\<close>, \<^const>\<open>None\<close> when
  it is null. A selection that is not empty and holds no JSON-named file raises the alert
  and returns before \<^verbatim>\<open>setSelectedFiles\<close>.
\<close>

definition handleFileSelect :: "js_file list option \<Rightarrow> chat_state \<Rightarrow> chat_state \<times> effect list" where
  "handleFileSelect target_files s =
     (let files = (case target_files of None \<Rightarrow> [] | Some fs \<Rightarrow> fs);
          jsonFiles = filter isJsonFile files
      in if length files > 0 \<and> length jsonFiles = 0
         then (s, [Alert ''Please select only JSON files containing database logs.''])
         else (s\<lparr>selectedFiles := jsonFiles\<rparr>, [ResetFileInput]))"

text \<open>\<^verbatim>\<open>removeFile\<close>; the index is a JavaScript number, here an integer.\<close>

definition removeFile :: "int \<Rightarrow> chat_state \<Rightarrow> chat_state \<times> effect list" where
  "removeFile index s =
     (s\<lparr>selectedFiles := filter_from (\<lambda>_ i. int i \<noteq> index) 0 (selectedFiles s)\<rparr>, [])"

subsection \<open>The input box and the template banner\<close>

definition setInputValue :: "string \<Rightarrow> chat_state \<Rightarrow> chat_state \<times> effect list" where
  "setInputValue v s = (s\<lparr>inputValue := v\<rparr>, [])"

definition toggleJsonTemplate :: "chat_state \<Rightarrow> chat_state \<times> effect list" where
  "toggleJsonTemplate s = (s\<lparr>showJsonTemplate := \<not> showJsonTemplate s\<rparr>, [])"

definition closeJsonTemplate :: "chat_state \<Rightarrow> chat_state \<times> effect list" where
  "closeJsonTemplate s = (s\<lparr>showJsonTemplate := False\<rparr>, [])"

definition jsonTemplate :: json where
  "jsonTemplate =
     JObject [(''logs'', JArray [
       JObject [(''id'', JNumber 1),
                (''query'', JString ''SELECT * FROM users WHERE email LIKE '%gmail.com%';''),
                (''duration_ms'', JNumber 1200),
                (''rows'', JNumber 10000),
                (''calls'', JNumber 50)],
       JObject [(''id'', JNumber 2),
                (''query'', JString ''INSERT INTO orders (id, amount) VALUES (1, 500);''),
                (''duration_ms'', JNumber 15),
                (''rows'', JNumber 1),
                (''calls'', JNumber 200)],
       JObject [(''id'', JNumber 3),
                (''query'', JString ''SELECT id, name FROM products WHERE category_id = 5;''),
                (''duration_ms'', JNumber 130),
                (''rows'', JNumber 300),
                (''calls'', JNumber 80)]])]"

text \<open>
  \<^verbatim>\<open>copyJsonTemplate\<close>, \<^verbatim>\<open>downloadJsonTemplate\<close> and \<^verbatim>\<open>copyBotMessage\<close>. The
  argument \<open>rejected\<close> is the error the clipboard write was rejected with, if it was.
\<close>

definition copyJsonTemplate :: "js_error option \<Rightarrow> chat_state \<Rightarrow> chat_state \<times> effect list" where
  "copyJsonTemplate rejected s =
     (s, ClipboardWrite (JSON_stringify jsonTemplate 2) #
         (case rejected of
            None \<Rightarrow> [Toast ''JSON template copied to clipboard!'']
          | Some err \<Rightarrow> [ConsoleError ''Failed to copy JSON template:'']))"

definition downloadJsonTemplate :: "chat_state \<Rightarrow> chat_state \<times> effect list" where
  "downloadJsonTemplate s =
     (s, [Download ''database-logs-template.json'' ''application/json''
            (JSON_stringify jsonTemplate 2)])"

definition copyBotMessage :: "string \<Rightarrow> js_error option \<Rightarrow> chat_state \<Rightarrow> chat_state \<times> effect list" where
  "copyBotMessage messageText rejected s =
     (s, ClipboardWrite messageText #
         (case rejected of
            None \<Rightarrow> [Toast ''Message copied to clipboard!'']
          | Some err \<Rightarrow> [ConsoleError ''Failed to copy message:'']))"

subsection \<open>Sending a message\<close>

text \<open>
  What one run of \<^verbatim>\<open>handleSendMessage\<close> reads from its surroundings: the configured
  backend URL, the readings of the clock (\<^verbatim>\<open>Date.now()\<close> and \<^verbatim>\<open>new Date()\<close>) in
  the order the code takes them, and the URLs that \<^verbatim>\<open>URL.createObjectURL\<close> hands out
  for the staged files, by position.
\<close>

record send_env =
  VITE_BACKEND_URL :: "string option"
  now_file :: "nat \<Rightarrow> nat"
  createObjectURL :: "nat \<Rightarrow> string"
  now_user_id :: nat
  now_user_ts :: nat
  now_reply_id :: nat
  now_reply_ts :: nat

definition API_URL :: "send_env \<Rightarrow> string" where
  "API_URL env =
     (case VITE_BACKEND_URL env of
        None \<Rightarrow> ''http://127.0.0.1:8000''
      | Some u \<Rightarrow> if u = [] then ''http://127.0.0.1:8000'' else u)"

definition fileAttachments :: "send_env \<Rightarrow> js_file list \<Rightarrow> file_attachment list" where
  "fileAttachments env fs =
     map_from (\<lambda>file i.
         \<lparr> att_id = toString_nat (now_file env i) @ ''-'' @ file_name file,
           att_name = file_name file,
           att_size = file_size file,
           att_type = file_type file,
           att_url = createObjectURL env i \<rparr>) 0 fs"

definition userMessage :: "send_env \<Rightarrow> chat_state \<Rightarrow> message" where
  "userMessage env s =
     \<lparr> msg_id = toString_nat (now_user_id env),
       text_of =
         (if inputValue s \<noteq> [] then inputValue s
          else if length (selectedFiles s) > 0
               then ''Sent '' @ toString_nat (length (selectedFiles s)) @ '' file(s)''
               else []),
       sender_of = User,
       timestamp = now_user_ts env,
       files =
         (if length (fileAttachments env (selectedFiles s)) > 0
          then Some (fileAttachments env (selectedFiles s)) else None) \<rparr>"

text \<open>
  The form data built inside \<^verbatim>\<open>try\<close>, from the values captured before the state
  was cleared (\<^verbatim>\<open>currentInput\<close>, \<^verbatim>\<open>chatHistory\<close>, \<^verbatim>\<open>currentFiles\<close>).
  \<^verbatim>\<open>JSON.stringify(chatHistory)\<close> serialises the array of the stored entries.
\<close>

definition formData :: "chat_state \<Rightarrow> form_data" where
  "formData s =
     \<lparr> fd_message = inputValue s,
       fd_chat_history = JSON_stringify (JArray (chatHistory s)) 0,
       fd_file =
         (if length (selectedFiles s) > 0 then find isJsonFile (selectedFiles s)
          else None) \<rparr>"

text \<open>The condition of the early \<^verbatim>\<open>return\<close> in the first line of the handler.\<close>

definition send_blocked :: "chat_state \<Rightarrow> bool" where
  "send_blocked s =
     ((trim (inputValue s) = [] \<and> length (selectedFiles s) = 0) \<or> isLoading s)"

text \<open>
  The handler up to the \<^verbatim>\<open>await\<close>: \<^const>\<open>None\<close> when it returned at once,
  otherwise the state with the four updates applied and the body of the request.
\<close>

definition handleSendMessage_dispatch ::
  "send_env \<Rightarrow> chat_state \<Rightarrow> (chat_state \<times> form_data) option" where
  "handleSendMessage_dispatch env s =
     (if send_blocked s then None
      else Some (s\<lparr> messages := messages s @ [userMessage env s],
                    inputValue := [],
                    selectedFiles := [],
                    isLoading := True \<rparr>,
                 formData s))"

definition botResponse :: "send_env \<Rightarrow> chat_response \<Rightarrow> message" where
  "botResponse env data =
     \<lparr> msg_id = toString_nat (now_reply_id env + 1),
       text_of = resp_message data,
       sender_of = Bot,
       timestamp = now_reply_ts env,
       files = None \<rparr>"

definition errorMessage :: "send_env \<Rightarrow> js_error \<Rightarrow> message" where
  "errorMessage env error =
     \<lparr> msg_id = toString_nat (now_reply_id env + 1),
       text_of =
         ''Sorry, I encountered an error: ''
         @ (case error of Error m \<Rightarrow> m | NonError \<Rightarrow> ''Unknown error'')
         @ ''. Please make sure the backend server is running.'',
       sender_of = Bot,
       timestamp = now_reply_ts env,
       files = None \<rparr>"

text \<open>
  The rest of the \<^verbatim>\<open>try\<close> block once the request has settled. \<open>reply\<close> is what
  \<^verbatim>\<open>await axios.post\<close> gave: the error it threw (a network failure or a status
  outside 2xx) or the response data. A truthy \<^verbatim>\<open>error\<close> field is thrown as a new
  \<^verbatim>\<open>Error\<close>. No state is set before either throw.
\<close>

definition try_block :: "send_env \<Rightarrow> js_error + chat_response \<Rightarrow> chat_state \<Rightarrow> js_error + chat_state" where
  "try_block env reply s =
     (case reply of
        Inl thrown \<Rightarrow> Inl thrown
      | Inr data \<Rightarrow>
          if (case resp_error data of None \<Rightarrow> False | Some e \<Rightarrow> e \<noteq> [])
          then Inl (Error (case resp_error data of None \<Rightarrow> [] | Some e \<Rightarrow> e))
          else Inr (s\<lparr> messages := messages s @ [botResponse env data],
                        chatHistory := resp_chat_history data \<rparr>))"

definition catch_block :: "send_env \<Rightarrow> js_error \<Rightarrow> chat_state \<Rightarrow> chat_state \<times> effect list" where
  "catch_block env error s =
     (s\<lparr> messages := messages s @ [errorMessage env error] \<rparr>,
      [ConsoleError ''Error sending message:''])"

text \<open>
  The handler after the \<^verbatim>\<open>await\<close>: \<^verbatim>\<open>try\<close>, \<^verbatim>\<open>catch\<close>, \<^verbatim>\<open>finally\<close>. The
  result is \<^const>\<open>Inl\<close> when an exception leaves the handler.
\<close>

definition handleSendMessage_settle ::
  "send_env \<Rightarrow> js_error + chat_response \<Rightarrow> chat_state \<Rightarrow> js_error + chat_state \<times> effect list" where
  "handleSendMessage_settle env reply s =
     (case try_block env reply s of
        Inr s' \<Rightarrow> Inr (s'\<lparr>isLoading := False\<rparr>, [])
      | Inl error \<Rightarrow>
          (case catch_block env error s of
             (s', effs) \<Rightarrow> Inr (s'\<lparr>isLoading := False\<rparr>, effs)))"

text \<open>
  One whole run of \<^verbatim>\<open>handleSendMessage\<close>, with \<open>axios_post\<close> answering the request
  for a URL and a body.
\<close>

definition handleSendMessage ::
  "send_env \<Rightarrow> (string \<Rightarrow> form_data \<Rightarrow> js_error + chat_response) \<Rightarrow> chat_state
     \<Rightarrow> js_error + chat_state \<times> effect list" where
  "handleSendMessage env axios_post s =
     (case handleSendMessage_dispatch env s of
        None \<Rightarrow> Inr (s, [])
      | Some (s1, body) \<Rightarrow>
          (case handleSendMessage_settle env (axios_post (API_URL env @ ''/chat'') body) s1 of
             Inl error \<Rightarrow> Inl error
           | Inr (s2, effs) \<Rightarrow> Inr (s2, Post (API_URL env @ ''/chat'') body # effs)))"

text \<open>\<^verbatim>\<open>handleKeyPress\<close>: Enter without Shift sends, any other key does nothing here.\<close>

definition handleKeyPress ::
  "string \<Rightarrow> bool \<Rightarrow> send_env \<Rightarrow> (string \<Rightarrow> form_data \<Rightarrow> js_error + chat_response)
     \<Rightarrow> chat_state \<Rightarrow> js_error + chat_state \<times> effect list" where
  "handleKeyPress key shiftKey env axios_post s =
     (if key = ''Enter'' \<and> \<not> shiftKey then handleSendMessage env axios_post s
      else Inr (s, []))"

subsection \<open>Sessions\<close>

text \<open>
  The events of a session. \<open>SendMessage\<close> is a run of the send handler with nothing
  happening while the request is in flight; \<open>SendDispatch\<close> and \<open>SendSettle\<close> are its
  two halves, so that other events may fall between them.
\<close>

datatype event =
    FileSelect "js_file list option"
  | RemoveFile int
  | InputChange string
  | ToggleJsonTemplate
  | CloseJsonTemplate
  | CopyJsonTemplate "js_error option"
  | DownloadJsonTemplate
  | CopyBotMessage string "js_error option"
  | SendMessage send_env "string \<Rightarrow> form_data \<Rightarrow> js_error + chat_response"
  | KeyPress string bool send_env "string \<Rightarrow> form_data \<Rightarrow> js_error + chat_response"
  | SendDispatch send_env
  | SendSettle send_env "js_error + chat_response"

fun step :: "chat_state \<Rightarrow> event \<Rightarrow> chat_state" where
  "step s (FileSelect target_files) = fst (handleFileSelect target_files s)"
| "step s (RemoveFile index) = fst (removeFile index s)"
| "step s (InputChange v) = fst (setInputValue v s)"
| "step s ToggleJsonTemplate = fst (toggleJsonTemplate s)"
| "step s CloseJsonTemplate = fst (closeJsonTemplate s)"
| "step s (CopyJsonTemplate rejected) = fst (copyJsonTemplate rejected s)"
| "step s DownloadJsonTemplate = fst (downloadJsonTemplate s)"
| "step s (CopyBotMessage messageText rejected) = fst (copyBotMessage messageText rejected s)"
| "step s (SendMessage env axios_post) =
     (case handleSendMessage env axios_post s of Inl error \<Rightarrow> s | Inr (s', effs) \<Rightarrow> s')"
| "step s (KeyPress key shiftKey env axios_post) =
     (case handleKeyPress key shiftKey env axios_post s of
        Inl error \<Rightarrow> s | Inr (s', effs) \<Rightarrow> s')"
| "step s (SendDispatch env) =
     (case handleSendMessage_dispatch env s of None \<Rightarrow> s | Some (s', body) \<Rightarrow> s')"
| "step s (SendSettle env reply) =
     (case handleSendMessage_settle env reply s of Inl error \<Rightarrow> s | Inr (s', effs) \<Rightarrow> s')"

definition run :: "chat_state \<Rightarrow> event list \<Rightarrow> chat_state" where
  "run s evs = foldl step s evs"

subsection \<open>Reading JSON text back\<close>

text \<open>
  A reader for JSON text, used to say what a serialised text denotes: the grammar of
  RFC 8259 for objects, arrays, strings with their escapes, integers and the three
  literals. It rejects (\<^const>\<open>None\<close>) what it does not cover (fractions, exponents,
  \<^verbatim>\<open>\u\<close> escapes of code units from 256 on) and text it cannot finish within its
  fuel.
\<close>

definition is_json_ws :: "char \<Rightarrow> bool" where
  "is_json_ws c = (c = CHR '' '' \<or> c = CHR 0x09 \<or> c = CHR 0x0A \<or> c = CHR 0x0D)"

definition is_digit :: "char \<Rightarrow> bool" where
  "is_digit c = (c \<in> set ''0123456789'')"

fun parse_digits :: "nat \<Rightarrow> string \<Rightarrow> nat \<times> string" where
  "parse_digits acc [] = (acc, [])"
| "parse_digits acc (c # cs) =
     (if is_digit c then parse_digits (10 * acc + (of_char c - 48)) cs else (acc, c # cs))"

definition unescape :: "char \<Rightarrow> char option" where
  "unescape e =
     (if e = CHR 0x22 \<or> e = CHR 0x5C \<or> e = CHR ''/'' then Some e
      else if e = CHR ''b'' then Some (CHR 0x08)
      else if e = CHR ''f'' then Some (CHR 0x0C)
      else if e = CHR ''n'' then Some (CHR 0x0A)
      else if e = CHR ''r'' then Some (CHR 0x0D)
      else if e = CHR ''t'' then Some (CHR 0x09)
      else None)"

definition hex_value :: "char \<Rightarrow> nat option" where
  "hex_value c =
     (if c \<in> set ''0123456789'' then Some (of_char c - 48)
      else if c \<in> set ''abcdef'' then Some (of_char c - 87)
      else if c \<in> set ''ABCDEF'' then Some (of_char c - 55)
      else None)"

text \<open>The code unit below 256 that the four hexadecimal digits of a \<^verbatim>\<open>\u\<close> escape name.\<close>

definition unescape_unicode :: "char \<Rightarrow> char \<Rightarrow> char \<Rightarrow> char \<Rightarrow> char option" where
  "unescape_unicode h1 h2 h3 h4 =
     (case (hex_value h1, hex_value h2, hex_value h3, hex_value h4) of
        (Some a, Some b, Some x, Some y) \<Rightarrow>
          if a = 0 \<and> b = 0 then Some (char_of (16 * x + y)) else None
      | _ \<Rightarrow> None)"

text \<open>The characters of a string after its opening quote, up to the closing one.\<close>

fun parse_string_chars :: "string \<Rightarrow> string \<Rightarrow> (string \<times> string) option" where
  "parse_string_chars acc [] = None"
| "parse_string_chars acc [c] = (if c = CHR 0x22 then Some (rev acc, []) else None)"
| "parse_string_chars acc (c # e # cs) =
     (if c = CHR 0x22 then Some (rev acc, e # cs)
      else if c = CHR 0x5C then
        (if e = CHR ''u'' then
           (case cs of
              h1 # h2 # h3 # h4 # cs' \<Rightarrow>
                (case unescape_unicode h1 h2 h3 h4 of
                   None \<Rightarrow> None
                 | Some d \<Rightarrow> parse_string_chars (d # acc) cs')
            | _ \<Rightarrow> None)
         else (case unescape e of
                 None \<Rightarrow> None
               | Some d \<Rightarrow> parse_string_chars (d # acc) cs))
      else if (of_char c :: nat) < 32 then None
      else parse_string_chars (c # acc) (e # cs))"

definition parse_number :: "string \<Rightarrow> (json \<times> string) option" where
  "parse_number cs =
     (let neg = (take 1 cs = ''-''); ds = (if neg then drop 1 cs else cs)
      in if take 1 ds = [] \<or> \<not> is_digit (hd ds) then None
         else if take 1 ds = ''0'' \<and> take 1 (drop 1 ds) \<noteq> [] \<and> is_digit (hd (drop 1 ds))
         then None
         else (case parse_digits 0 ds of
                 (k, r) \<Rightarrow> Some (JNumber (if neg then - int k else int k), r)))"

fun parse_value :: "nat \<Rightarrow> string \<Rightarrow> (json \<times> string) option"
  and parse_elements :: "nat \<Rightarrow> json list \<Rightarrow> string \<Rightarrow> (json list \<times> string) option"
  and parse_members ::
    "nat \<Rightarrow> (string \<times> json) list \<Rightarrow> string \<Rightarrow> ((string \<times> json) list \<times> string) option"
where
  "parse_value 0 cs = None"
| "parse_value (Suc n) cs =
     (case dropWhile is_json_ws cs of
        [] \<Rightarrow> None
      | c # rest \<Rightarrow>
          if c = CHR ''{'' then
            (if take 1 (dropWhile is_json_ws rest) = ''}''
             then Some (JObject [], drop 1 (dropWhile is_json_ws rest))
             else (case parse_members n [] rest of
                     None \<Rightarrow> None | Some (ps, r) \<Rightarrow> Some (JObject ps, r)))
          else if c = CHR ''['' then
            (if take 1 (dropWhile is_json_ws rest) = '']''
             then Some (JArray [], drop 1 (dropWhile is_json_ws rest))
             else (case parse_elements n [] rest of
                     None \<Rightarrow> None | Some (vs, r) \<Rightarrow> Some (JArray vs, r)))
          else if c = CHR 0x22 then
            (case parse_string_chars [] rest of
               None \<Rightarrow> None | Some (s, r) \<Rightarrow> Some (JString s, r))
          else if take 4 (c # rest) = ''true'' then Some (JBool True, drop 4 (c # rest))
          else if take 5 (c # rest) = ''false'' then Some (JBool False, drop 5 (c # rest))
          else if take 4 (c # rest) = ''null'' then Some (JNull, drop 4 (c # rest))
          else parse_number (c # rest))"
| "parse_elements 0 acc cs = None"
| "parse_elements (Suc n) acc cs =
     (case parse_value n cs of
        None \<Rightarrow> None
      | Some (v, r) \<Rightarrow>
          (case dropWhile is_json_ws r of
             [] \<Rightarrow> None
           | d # r' \<Rightarrow>
               if d = CHR '','' then parse_elements n (v # acc) r'
               else if d = CHR '']'' then Some (rev (v # acc), r')
               else None))"
| "parse_members 0 acc cs = None"
| "parse_members (Suc n) acc cs =
     (case dropWhile is_json_ws cs of
        [] \<Rightarrow> None
      | q # r0 \<Rightarrow>
          if q \<noteq> CHR 0x22 then None
          else (case parse_string_chars [] r0 of
                  None \<Rightarrow> None
                | Some (k, r1) \<Rightarrow>
                    if take 1 (dropWhile is_json_ws r1) \<noteq> '':'' then None
                    else (case parse_value n (drop 1 (dropWhile is_json_ws r1)) of
                            None \<Rightarrow> None
                          | Some (v, r3) \<Rightarrow>
                              (case dropWhile is_json_ws r3 of
                                 [] \<Rightarrow> None
                               | d # r4 \<Rightarrow>
                                   if d = CHR '','' then parse_members n ((k, v) # acc) r4
                                   else if d = CHR ''}'' then Some (rev ((k, v) # acc), r4)
                                   else None))))"

definition JSON_parse :: "string \<Rightarrow> json option" where
  "JSON_parse s =
     (case parse_value (2 * length s + 2) s of
        None \<Rightarrow> None
      | Some (v, r) \<Rightarrow> if dropWhile is_json_ws r = [] then Some v else None)"

subsection \<open>Reading the effects of a handler\<close>

fun requests :: "effect list \<Rightarrow> (string \<times> form_data) list" where
  "requests [] = []"
| "requests (Post url body # effs) = (url, body) # requests effs"
| "requests (_ # effs) = requests effs"

fun clipboard_texts :: "effect list \<Rightarrow> string list" where
  "clipboard_texts [] = []"
| "clipboard_texts (ClipboardWrite t # effs) = t # clipboard_texts effs"
| "clipboard_texts (_ # effs) = clipboard_texts effs"

fun downloaded_texts :: "effect list \<Rightarrow> string list" where
  "downloaded_texts [] = []"
| "downloaded_texts (Download name mime t # effs) = t # downloaded_texts effs"
| "downloaded_texts (_ # effs) = downloaded_texts effs"

text \<open>The property names of a JSON object, in order; \<^const>\<open>None\<close> for any other value.\<close>

fun property_names :: "json \<Rightarrow> string list option" where
  "property_names (JObject ps) = Some (map fst ps)"
| "property_names _ = None"

subsection \<open>A sample session\<close>

text \<open>
  Concrete inputs on which the properties below are run: a user who asks
  \<^verbatim>\<open>show slow queries\<close> with no file staged and an empty history, a user who has
  typed only blanks, a user who comes back with a history and three staged files, some
  files, and three backends (one that answers, one that
  answers 200 with an \<^verbatim>\<open>error\<close> field, one that cannot be reached).
\<close>

definition example_env :: send_env where
  "example_env =
     \<lparr> VITE_BACKEND_URL = None,
       now_file = (\<lambda>i. 1762131600000),
       createObjectURL = (\<lambda>i. ''blob:http://localhost:3000/'' @ toString_nat i),
       now_user_id = 1762131600000,
       now_user_ts = 1762131600000,
       now_reply_id = 1762131600850,
       now_reply_ts = 1762131600850 \<rparr>"

definition asking_state :: chat_state where
  "asking_state = (initial_state 1762131500000)\<lparr>inputValue := ''show slow queries''\<rparr>"

definition blank_state :: chat_state where
  "blank_state = (initial_state 1762131500000)\<lparr>inputValue := ''   ''\<rparr>"

definition logs_json :: js_file where
  "logs_json =
     \<lparr> file_name = ''logs.JSON'', file_size = 2048, file_type = ''application/json'' \<rparr>"

definition notes_txt :: js_file where
  "notes_txt = \<lparr> file_name = ''notes.txt'', file_size = 12, file_type = ''text/plain'' \<rparr>"

definition queries_json :: js_file where
  "queries_json =
     \<lparr> file_name = ''queries.json'', file_size = 512, file_type = ''application/json'' \<rparr>"

definition audit_json :: js_file where
  "audit_json =
     \<lparr> file_name = ''audit.Json'', file_size = 64, file_type = ''application/json'' \<rparr>"

text \<open>
  A history as a backend may have sent it: a quoted word in the first entry, and in the
  second the properties in another order with one more property.
\<close>

definition earlier_history :: "chat_message list" where
  "earlier_history =
     [JObject [(''role'', JString ''user''),
               (''content'', JString (''show '' @ [CHR 0x22] @ ''slow'' @ [CHR 0x22] @ '' queries''))],
      JObject [(''content'', JString ''Query X is slow''),
               (''role'', JString ''assistant''),
               (''turn'', JNumber 2)]]"

definition returning_state :: chat_state where
  "returning_state =
     (initial_state 1762131500000)
       \<lparr>inputValue := ''and the inserts?'',
        selectedFiles := [logs_json, queries_json, audit_json],
        chatHistory := earlier_history\<rparr>"

definition attaching_state :: chat_state where
  "attaching_state =
     (initial_state 1762131500000)
       \<lparr>inputValue := ''what is slow here?'', selectedFiles := [logs_json]\<rparr>"

definition slow_query_response :: chat_response where
  "slow_query_response =
     \<lparr> resp_message = ''Query X is slow'',
       resp_chat_history =
         [JObject [(''role'', JString ''user''), (''content'', JString ''show slow queries'')],
          JObject [(''role'', JString ''assistant''), (''content'', JString ''Query X is slow'')]],
       resp_error = None \<rparr>"

definition backend_answers :: "string \<Rightarrow> form_data \<Rightarrow> js_error + chat_response" where
  "backend_answers url body = Inr slow_query_response"

definition error_response :: chat_response where
  "error_response =
     \<lparr> resp_message = [], resp_chat_history = [], resp_error = Some ''No logs uploaded'' \<rparr>"

definition backend_reports_error :: "string \<Rightarrow> form_data \<Rightarrow> js_error + chat_response" where
  "backend_reports_error url body = Inr error_response"

definition backend_unreachable :: "string \<Rightarrow> form_data \<Rightarrow> js_error + chat_response" where
  "backend_unreachable url body = Inl (Error ''Network Error'')"

section \<open>Properties\<close>

subsection \<open>Auxiliary facts\<close>

lemma trim_empty_iff: "trim s = [] \<longleftrightarrow> list_all isWhiteSpace s"
proof
  assume "trim s = []"
  then have all: "\<forall>x\<in>set (dropWhile isWhiteSpace s). isWhiteSpace x"
    by (simp add: trim_def)
  have "dropWhile isWhiteSpace s = []"
  proof (rule ccontr)
    assume ne: "dropWhile isWhiteSpace s \<noteq> []"
    then have "\<not> isWhiteSpace (hd (dropWhile isWhiteSpace s))"
      by (rule hd_dropWhile)
    moreover have "hd (dropWhile isWhiteSpace s) \<in> set (dropWhile isWhiteSpace s)"
      using ne by simp
    ultimately show False using all by blast
  qed
  then show "list_all isWhiteSpace s"
    by (simp add: list_all_iff)
next
  assume "list_all isWhiteSpace s"
  then have d: "dropWhile isWhiteSpace s = []"
    by (simp add: list_all_iff)
  show "trim s = []"
    unfolding trim_def d by simp
qed

text \<open>The three ways the handler ends after the request has settled.\<close>

lemma settle_thrown:
  "handleSendMessage_settle env (Inl e) s =
     Inr (s\<lparr>messages := messages s @ [errorMessage env e], isLoading := False\<rparr>,
          [ConsoleError ''Error sending message:''])"
  by (simp add: handleSendMessage_settle_def try_block_def catch_block_def)

lemma settle_error_field:
  "resp_error data = Some em \<Longrightarrow> em \<noteq> [] \<Longrightarrow>
   handleSendMessage_settle env (Inr data) s =
     Inr (s\<lparr>messages := messages s @ [errorMessage env (Error em)], isLoading := False\<rparr>,
          [ConsoleError ''Error sending message:''])"
  by (simp add: handleSendMessage_settle_def try_block_def catch_block_def)

lemma settle_success:
  "resp_error data = None \<or> resp_error data = Some [] \<Longrightarrow>
   handleSendMessage_settle env (Inr data) s =
     Inr (s\<lparr>messages := messages s @ [botResponse env data],
             chatHistory := resp_chat_history data, isLoading := False\<rparr>, [])"
  by (auto simp add: handleSendMessage_settle_def try_block_def)

lemma settle_no_requests:
  "\<exists>s2 effs. handleSendMessage_settle env reply s = Inr (s2, effs) \<and> requests effs = []"
  by (simp add: handleSendMessage_settle_def catch_block_def split: sum.split)

lemma dispatch_passes:
  "\<not> send_blocked s \<Longrightarrow>
   handleSendMessage_dispatch env s =
     Some (s\<lparr>messages := messages s @ [userMessage env s], inputValue := [],
             selectedFiles := [], isLoading := True\<rparr>, formData s)"
  by (simp add: handleSendMessage_dispatch_def)

text \<open>
  Once a request has been dispatched the in-flight flag is set, and a second run of the
  handler on that state returns at once: two requests are never in flight together.
\<close>

lemma dispatch_marks_in_flight:
  assumes "handleSendMessage_dispatch env s = Some (s1, body)"
  shows "isLoading s1 \<and> handleSendMessage_dispatch env' s1 = None"
  using assms
  by (auto simp add: handleSendMessage_dispatch_def send_blocked_def split: if_splits)

text \<open>A whole send is its dispatch followed by its settling on the reply.\<close>

lemma send_is_dispatch_then_settle:
  "step s (SendMessage env axios_post) =
     (case handleSendMessage_dispatch env s of
        None \<Rightarrow> s
      | Some (s1, body) \<Rightarrow>
          step s1 (SendSettle env (axios_post (API_URL env @ ''/chat'') body)))"
proof (cases "handleSendMessage_dispatch env s")
  case None
  then show ?thesis by (simp add: handleSendMessage_def)
next
  case (Some p)
  obtain s1 body where p: "p = (s1, body)" by (cases p)
  obtain s2 effs where
    "handleSendMessage_settle env (axios_post (API_URL env @ ''/chat'') body) s1 = Inr (s2, effs)"
    using settle_no_requests by blast
  with Some p show ?thesis by (simp add: handleSendMessage_def)
qed

lemma find_filter_conv:
  "find P xs = (case filter P xs of [] \<Rightarrow> None | x # _ \<Rightarrow> Some x)"
  by (induction xs) simp_all

lemma run_snoc: "run s (evs @ [e]) = step (run s evs) e"
  by (simp add: run_def)

lemma handleFileSelect_rejects:
  "sel \<noteq> [] \<Longrightarrow> filter isJsonFile sel = [] \<Longrightarrow>
   handleFileSelect (Some sel) s =
     (s, [Alert ''Please select only JSON files containing database logs.''])"
  by (simp add: handleFileSelect_def Let_def)

lemma handleFileSelect_accepts:
  "\<not> (sel \<noteq> [] \<and> filter isJsonFile sel = []) \<Longrightarrow>
   handleFileSelect (Some sel) s =
     (s\<lparr>selectedFiles := filter isJsonFile sel\<rparr>, [ResetFileInput])"
  by (simp add: handleFileSelect_def Let_def)

lemma isJsonFile_logs_json: "isJsonFile logs_json"
  by (simp add: isJsonFile_def logs_json_def endsWith_def toLowerCase_def toLowerCase_char_def
        char_of_eq_iff)

lemma not_isJsonFile_notes_txt: "\<not> isJsonFile notes_txt"
  by (simp add: isJsonFile_def notes_txt_def endsWith_def toLowerCase_def toLowerCase_char_def)

lemma asking_state_not_blocked: "\<not> send_blocked asking_state"
  by (simp add: send_blocked_def asking_state_def initial_state_def trim_def isWhiteSpace_def)

lemma attaching_state_not_blocked: "\<not> send_blocked attaching_state"
  by (simp add: send_blocked_def attaching_state_def initial_state_def)

lemma returning_state_not_blocked: "\<not> send_blocked returning_state"
  by (simp add: send_blocked_def returning_state_def initial_state_def)

lemma isJsonFile_queries_json: "isJsonFile queries_json"
  by (simp add: isJsonFile_def queries_json_def endsWith_def toLowerCase_def toLowerCase_char_def)

lemma isJsonFile_audit_json: "isJsonFile audit_json"
  by (simp add: isJsonFile_def audit_json_def endsWith_def toLowerCase_def toLowerCase_char_def
        char_of_eq_iff)

text \<open>Removing by position: what the filter over indices leaves.\<close>

lemma filter_from_skip:
  "filter_from (\<lambda>_ j. int j \<noteq> index) i xs =
     (if int i \<le> index \<and> index < int i + int (length xs)
      then take (nat index - i) xs @ drop (Suc (nat index - i)) xs else xs)"
proof (induction xs arbitrary: i)
  case Nil
  show ?case by simp
next
  case (Cons x xs)
  show ?case
  proof (cases "int i = index")
    case True
    then show ?thesis by (simp add: Cons.IH)
  next
    case False
    show ?thesis
    proof (cases "int i \<le> index \<and> index < int i + int (length (x # xs))")
      case True
      with False have "nat index - i = Suc (nat index - Suc i)" by linarith
      with True False show ?thesis by (simp add: Cons.IH)
    next
      case False
      with \<open>int i \<noteq> index\<close> show ?thesis by (auto simp add: Cons.IH)
    qed
  qed
qed

lemma step_extends_log: "prefix (messages s) (messages (step s e))"
proof (cases e)
  case (FileSelect target_files)
  then show ?thesis by (simp add: handleFileSelect_def Let_def)
next
  case (SendMessage env axios_post)
  then show ?thesis
    by (auto simp add: handleSendMessage_def handleSendMessage_dispatch_def
          handleSendMessage_settle_def try_block_def catch_block_def
          split: sum.splits option.splits if_splits prod.splits)
next
  case (KeyPress key shiftKey env axios_post)
  then show ?thesis
    by (auto simp add: handleKeyPress_def handleSendMessage_def handleSendMessage_dispatch_def
          handleSendMessage_settle_def try_block_def catch_block_def
          split: sum.splits option.splits if_splits prod.splits)
next
  case (SendDispatch env)
  then show ?thesis by (simp add: handleSendMessage_dispatch_def)
next
  case (SendSettle env reply)
  then show ?thesis
    by (auto simp add: handleSendMessage_settle_def try_block_def catch_block_def
          split: sum.splits if_splits)
qed (simp_all add: removeFile_def setInputValue_def toggleJsonTemplate_def
       closeJsonTemplate_def copyJsonTemplate_def downloadJsonTemplate_def copyBotMessage_def)

subsection \<open>Reading back what \<^verbatim>\<open>JSON.stringify\<close> wrote\<close>

text \<open>
  The compact serialisation of any value reads back as that value. The proof follows
  the reader: digits and numbers, the characters of a string, then values with their
  elements and members, and last the bound on the fuel.
\<close>

lemma compact_array:
  "SerializeJSONProperty [] [] (JArray vs) =
     (if vs = [] then ''[]''
      else ''['' @ join '','' (map (SerializeJSONProperty [] []) vs) @ '']'')"
  by (simp add: Let_def)

lemma compact_object:
  "SerializeJSONProperty [] [] (JObject ps) =
     (if ps = [] then ''{}''
      else ''{'' @ join '',''
             (map (\<lambda>p. QuoteJSONString (fst p) @ '':'' @ SerializeJSONProperty [] [] (snd p)) ps)
           @ ''}'')"
  by (simp add: Let_def)

lemma join_Cons: "join sep (x # xs) = (if xs = [] then x else x @ sep @ join sep xs)"
  by (cases xs) simp_all

lemma decimal_digits_all:
  "list_all (\<lambda>d. is_digit (''0123456789'' ! d) \<and> of_char (''0123456789'' ! d) - 48 = d
                 \<and> ((''0123456789'' ! d = CHR ''0'') = (d = 0))) [0..<10]"
  by code_simp

lemma decimal_digit:
  assumes "d < 10"
  shows "is_digit (''0123456789'' ! d)"
    and "of_char (''0123456789'' ! d) - 48 = d"
    and "(''0123456789'' ! d = CHR ''0'') = (d = 0)"
proof -
  from assms have "d \<in> set [0..<10]" by simp
  with decimal_digits_all
  show "is_digit (''0123456789'' ! d)"
    and "of_char (''0123456789'' ! d) - 48 = d"
    and "(''0123456789'' ! d = CHR ''0'') = (d = 0)"
    unfolding list_all_iff by blast+
qed

lemma hex_digits_all:
  "list_all (\<lambda>k. hex_value (''0123456789abcdef'' ! k) = Some k) [0..<16]"
  by code_simp

lemma hex_digit:
  assumes "k < 16"
  shows "hex_value (''0123456789abcdef'' ! k) = Some k"
proof -
  from assms have "k \<in> set [0..<16]" by simp
  with hex_digits_all show ?thesis
    unfolding list_all_iff by blast
qed

lemma toString_nat_head:
  "toString_nat n \<noteq> [] \<and> is_digit (hd (toString_nat n))
   \<and> ((hd (toString_nat n) = CHR ''0'') = (n = 0))"
proof (induction n rule: toString_nat.induct)
  case (1 n)
  show ?case
  proof (cases "n < 10")
    case True
    then show ?thesis by (subst (1 2 3) toString_nat.simps) (simp add: decimal_digit)
  next
    case False
    then have "n div 10 \<noteq> 0" "n \<noteq> 0" by simp_all
    with False "1.IH" show ?thesis by (subst (1 2 3) toString_nat.simps) simp
  qed
qed

lemma toString_nat_digits:
  "toString_nat n \<noteq> []"
  "is_digit (hd (toString_nat n))"
  "(hd (toString_nat n) = CHR ''0'') = (n = 0)"
  using toString_nat_head [of n] by simp_all

lemma parse_digits_toString:
  "parse_digits acc (toString_nat n @ rest) =
     parse_digits (acc * 10 ^ length (toString_nat n) + n) rest"
proof (induction n arbitrary: acc rest rule: toString_nat.induct)
  case (1 n)
  show ?case
  proof (cases "n < 10")
    case True
    then show ?thesis
      by (subst (1 2) toString_nat.simps) (simp add: decimal_digit mult.commute)
  next
    case False
    have "parse_digits acc (toString_nat n @ rest) =
            parse_digits acc (toString_nat (n div 10) @ (''0123456789'' ! (n mod 10)) # rest)"
      using False by (subst toString_nat.simps) simp
    also have "\<dots> = parse_digits (acc * 10 ^ length (toString_nat (n div 10)) + n div 10)
                       ((''0123456789'' ! (n mod 10)) # rest)"
      using False by (simp add: "1.IH")
    also have "\<dots> = parse_digits
                       (10 * (acc * 10 ^ length (toString_nat (n div 10)) + n div 10) + n mod 10)
                       rest"
      by (simp add: decimal_digit)
    also have "10 * (acc * 10 ^ length (toString_nat (n div 10)) + n div 10) + n mod 10 =
                 acc * 10 ^ length (toString_nat n) + n"
    proof -
      have "length (toString_nat n) = Suc (length (toString_nat (n div 10)))"
        using False by (subst toString_nat.simps) simp
      then show ?thesis by (simp add: algebra_simps)
    qed
    finally show ?thesis .
  qed
qed

lemma parse_digits_stop:
  "rest = [] \<or> \<not> is_digit (hd rest) \<Longrightarrow> parse_digits a rest = (a, rest)"
  by (cases rest) auto

lemma is_digit_not_minus: "is_digit c \<Longrightarrow> c \<noteq> CHR ''-''"
  by (auto simp add: is_digit_def)

lemma parse_number_plain:
  assumes "is_digit c"
    and "c = CHR ''0'' \<Longrightarrow> ds = [] \<or> \<not> is_digit (hd ds)"
    and "parse_digits 0 (c # ds) = (k, r)"
  shows "parse_number (c # ds) = Some (JNumber (int k), r)"
proof -
  have "c \<noteq> CHR ''-''" using assms(1) by (rule is_digit_not_minus)
  with assms show ?thesis
    by (cases ds) (auto simp add: parse_number_def Let_def simp del: parse_digits.simps)
qed

lemma parse_number_minus:
  assumes "is_digit c"
    and "c = CHR ''0'' \<Longrightarrow> ds = [] \<or> \<not> is_digit (hd ds)"
    and "parse_digits 0 (c # ds) = (k, r)"
  shows "parse_number (CHR ''-'' # c # ds) = Some (JNumber (- int k), r)"
  using assms
  by (cases ds) (auto simp add: parse_number_def Let_def simp del: parse_digits.simps)

lemma toString_nat_parts:
  "\<exists>c cs. toString_nat n = c # cs \<and> is_digit c \<and> (c = CHR ''0'' \<longrightarrow> cs = [])"
proof -
  obtain c cs where shape: "toString_nat n = c # cs"
    using toString_nat_digits(1) [of n] by (cases "toString_nat n") auto
  have "is_digit c" "(c = CHR ''0'') = (n = 0)"
    using toString_nat_digits(2,3) [of n] unfolding shape by simp_all
  moreover have "toString_nat 0 = ''0''"
    by (subst toString_nat.simps) simp
  ultimately show ?thesis
    using shape by auto
qed

lemma parse_number_toString:
  assumes "rest = [] \<or> \<not> is_digit (hd rest)"
  shows "parse_number (toString_int i @ rest) = Some (JNumber i, rest)"
proof -
  have digits: "parse_digits 0 (toString_nat n @ rest) = (n, rest)" for n
    using assms by (simp add: parse_digits_toString parse_digits_stop)
  show ?thesis
  proof (cases "i < 0")
    case False
    obtain c cs where shape: "toString_nat (nat i) = c # cs" and c: "is_digit c"
      and zero: "c = CHR ''0'' \<longrightarrow> cs = []"
      using toString_nat_parts [of "nat i"] by blast
    have "parse_number (c # (cs @ rest)) = Some (JNumber (int (nat i)), rest)"
    proof (rule parse_number_plain [OF c])
      show "cs @ rest = [] \<or> \<not> is_digit (hd (cs @ rest))" if "c = CHR ''0''"
        using zero that assms by simp
      show "parse_digits 0 (c # cs @ rest) = (nat i, rest)"
        using digits [of "nat i"] unfolding shape by simp
    qed
    with False show ?thesis by (simp add: toString_int_def shape)
  next
    case True
    obtain c cs where shape: "toString_nat (nat (- i)) = c # cs" and c: "is_digit c"
      and zero: "c = CHR ''0'' \<longrightarrow> cs = []"
      using toString_nat_parts [of "nat (- i)"] by blast
    have "parse_number (CHR ''-'' # c # (cs @ rest)) = Some (JNumber (- int (nat (- i))), rest)"
    proof (rule parse_number_minus [OF c])
      show "cs @ rest = [] \<or> \<not> is_digit (hd (cs @ rest))" if "c = CHR ''0''"
        using zero that assms by simp
      show "parse_digits 0 (c # cs @ rest) = (nat (- i), rest)"
        using digits [of "nat (- i)"] unfolding shape by simp
    qed
    with True show ?thesis by (simp add: toString_int_def shape)
  qed
qed


lemma escaped_codes:
  "char_of (8::nat) = CHR 0x08" "char_of (9::nat) = CHR 0x09" "char_of (10::nat) = CHR 0x0A"
  "char_of (12::nat) = CHR 0x0C" "char_of (13::nat) = CHR 0x0D" "char_of (34::nat) = CHR 0x22"
  "char_of (92::nat) = CHR 0x5C"
  by (simp_all add: char_of_eq_iff)

lemma quote_char_read:
  assumes "ds \<noteq> []"
  shows "parse_string_chars acc (quote_char c @ ds) = parse_string_chars (c # acc) ds"
proof -
  obtain d ds' where ds: "ds = d # ds'" using assms by (cases ds) auto
  define n where "n = (of_char c :: nat)"
  have c: "c = char_of n" unfolding n_def by simp
  consider "n = 8" | "n = 9" | "n = 10" | "n = 12" | "n = 13" | "n = 34" | "n = 92"
    | "n < 32" "n \<notin> {8, 9, 10, 12, 13}" | "32 \<le> n" "n \<noteq> 34" "n \<noteq> 92"
    by fastforce
  then show ?thesis
  proof cases
    case 8
    have "n div 16 < 16" "n mod 16 < 16" using 8(1) by simp_all
    then have hex: "hex_value (''0123456789abcdef'' ! (n div 16)) = Some (n div 16)"
      "hex_value (''0123456789abcdef'' ! (n mod 16)) = Some (n mod 16)"
      by (simp_all add: hex_digit)
    have zero: "hex_value CHR ''0'' = Some 0" by (simp add: hex_value_def)
    have "unescape_unicode CHR ''0'' CHR ''0'' (''0123456789abcdef'' ! (n div 16))
            (''0123456789abcdef'' ! (n mod 16)) = Some c"
      by (simp add: unescape_unicode_def hex zero c)
    moreover have "quote_char c =
        [CHR 0x5C, CHR ''u'', CHR ''0'', CHR ''0'',
         ''0123456789abcdef'' ! (n div 16), ''0123456789abcdef'' ! (n mod 16)]"
      using 8 by (simp add: quote_char_def n_def [symmetric] Let_def)
    ultimately show ?thesis by (simp add: ds)
  next
    case 9
    then have "quote_char c = [c]"
      by (auto simp add: quote_char_def n_def [symmetric] Let_def)
    moreover have "c \<noteq> CHR 0x22" "c \<noteq> CHR 0x5C" "\<not> (of_char c :: nat) < 32"
      using 9 by (auto simp add: n_def)
    ultimately show ?thesis by (simp add: ds)
  qed (simp_all add: c quote_char_def Let_def ds unescape_def escaped_codes)
qed

lemma quoted_chars_read:
  "parse_string_chars acc (concat (map quote_char s) @ CHR 0x22 # rest) = Some (rev acc @ s, rest)"
proof (induction s arbitrary: acc)
  case Nil
  show ?case by (cases rest) simp_all
next
  case (Cons c s)
  have "parse_string_chars acc (quote_char c @ (concat (map quote_char s) @ CHR 0x22 # rest)) =
          parse_string_chars (c # acc) (concat (map quote_char s) @ CHR 0x22 # rest)"
    by (rule quote_char_read) simp
  then show ?case by (simp add: Cons.IH)
qed

declare SerializeJSONProperty.simps(5,6) [simp del]

lemma is_digit_apart:
  assumes "is_digit c"
  shows "\<not> is_json_ws c" "c \<noteq> CHR ''{''" "c \<noteq> CHR ''[''" "c \<noteq> CHR 0x22"
    "c \<noteq> CHR ''t''" "c \<noteq> CHR ''f''" "c \<noteq> CHR ''n''" "c \<noteq> CHR '']''" "c \<noteq> CHR ''}''"
  using assms by (auto simp add: is_digit_def is_json_ws_def)

lemma toString_int_head:
  "\<exists>c cs. toString_int i = c # cs \<and> (c = CHR ''-'' \<or> is_digit c)"
  using toString_nat_parts [of "nat i"] toString_nat_parts [of "nat (- i)"]
  by (auto simp add: toString_int_def)

lemma parse_value_number_start:
  assumes "c = CHR ''-'' \<or> is_digit c"
  shows "parse_value (Suc n) (c # ds) = parse_number (c # ds)"
  using assms
proof
  assume "c = CHR ''-''"
  then show ?thesis by (simp add: is_json_ws_def)
next
  assume "is_digit c"
  from is_digit_apart [OF this] show ?thesis by simp
qed

lemma parse_value_number:
  assumes "rest = [] \<or> \<not> is_digit (hd rest)"
  shows "parse_value (Suc n) (toString_int i @ rest) = Some (JNumber i, rest)"
proof -
  obtain c cs where shape: "toString_int i = c # cs" and c: "c = CHR ''-'' \<or> is_digit c"
    using toString_int_head by blast
  have "parse_value (Suc n) (c # (cs @ rest)) = parse_number (c # (cs @ rest))"
    using c by (rule parse_value_number_start)
  then have "parse_value (Suc n) (toString_int i @ rest) = parse_number (toString_int i @ rest)"
    by (simp only: shape append_Cons)
  with assms show ?thesis by (simp only: parse_number_toString)
qed

lemma compact_head:
  "\<exists>c cs. SerializeJSONProperty [] [] v = c # cs \<and> \<not> is_json_ws c
          \<and> c \<noteq> CHR '']'' \<and> c \<noteq> CHR ''}''"
proof (cases v)
  case (JNumber i)
  obtain c cs where shape: "toString_int i = c # cs" and c: "c = CHR ''-'' \<or> is_digit c"
    using toString_int_head by blast
  from c have "\<not> is_json_ws c \<and> c \<noteq> CHR '']'' \<and> c \<noteq> CHR ''}''"
  proof
    assume "c = CHR ''-''"
    then show ?thesis by (simp add: is_json_ws_def)
  next
    assume "is_digit c"
    from is_digit_apart [OF this] show ?thesis by simp
  qed
  with JNumber shape show ?thesis by simp
next
  case (JArray vs)
  then show ?thesis by (simp add: compact_array is_json_ws_def)
next
  case (JObject ps)
  then show ?thesis by (simp add: compact_object is_json_ws_def)
qed (simp_all add: is_json_ws_def QuoteJSONString_def)


lemma parse_value_array_start:
  "\<not> is_json_ws c \<Longrightarrow> c \<noteq> CHR '']'' \<Longrightarrow>
   parse_value (Suc n) (CHR ''['' # c # ds) =
     (case parse_elements n [] (c # ds) of None \<Rightarrow> None | Some (vs, r) \<Rightarrow> Some (JArray vs, r))"
  by (simp add: is_json_ws_def)

lemma parse_value_object_start:
  "parse_value (Suc n) (CHR ''{'' # CHR 0x22 # ds) =
     (case parse_members n [] (CHR 0x22 # ds) of
        None \<Rightarrow> None | Some (ps, r) \<Rightarrow> Some (JObject ps, r))"
  by (simp add: is_json_ws_def)

lemma parse_elements_step:
  "parse_value n cs = Some (v, d # r) \<Longrightarrow> \<not> is_json_ws d \<Longrightarrow>
   parse_elements (Suc n) acc cs =
     (if d = CHR '','' then parse_elements n (v # acc) r
      else if d = CHR '']'' then Some (rev (v # acc), r) else None)"
  by simp

lemma parse_members_step:
  "parse_string_chars [] r0 = Some (k, CHR '':'' # r2) \<Longrightarrow>
   parse_value n r2 = Some (v, d # r) \<Longrightarrow> \<not> is_json_ws d \<Longrightarrow>
   parse_members (Suc n) acc (CHR 0x22 # r0) =
     (if d = CHR '','' then parse_members n ((k, v) # acc) r
      else if d = CHR ''}'' then Some (rev ((k, v) # acc), r) else None)"
  by (simp add: is_json_ws_def)

declare parse_value.simps(2) [simp del] parse_elements.simps(2) [simp del]
  parse_members.simps(2) [simp del]

lemma parse_elements_compact:
  assumes "\<And>v fuel rest. v \<in> set vs \<Longrightarrow> size v < fuel \<Longrightarrow> rest = [] \<or> \<not> is_digit (hd rest) \<Longrightarrow>
             parse_value fuel (SerializeJSONProperty [] [] v @ rest) = Some (v, rest)"
    and "vs \<noteq> []"
    and "size_list size vs < fuel"
  shows "parse_elements fuel acc
           (join '','' (map (SerializeJSONProperty [] []) vs) @ CHR '']'' # rest)
         = Some (rev acc @ vs, rest)"
  using assms
proof (induction vs arbitrary: fuel acc)
  case Nil
  then show ?case by simp
next
  case (Cons v vs)
  from Cons.prems(3) obtain n where fuel: "fuel = Suc n" by (cases fuel) auto
  from Cons.prems(3) have small: "size v < n" "size_list size vs < n"
    by (simp_all add: fuel)
  have element: "parse_value n (SerializeJSONProperty [] [] v @ d # ds) = Some (v, d # ds)"
    if "\<not> is_digit d" for d ds
    using Cons.prems(1) [of v n "d # ds"] small that by simp
  show ?case
  proof (cases "vs = []")
    case True
    have "parse_value n (SerializeJSONProperty [] [] v @ CHR '']'' # rest) = Some (v, CHR '']'' # rest)"
      by (rule element) (simp add: is_digit_def)
    then have "parse_elements (Suc n) acc (SerializeJSONProperty [] [] v @ CHR '']'' # rest)
                 = Some (rev (v # acc), rest)"
      by (simp add: parse_elements_step is_json_ws_def)
    then show ?thesis by (simp add: True fuel)
  next
    case False
    let ?more = "join '','' (map (SerializeJSONProperty [] []) vs) @ CHR '']'' # rest"
    have "parse_value n (SerializeJSONProperty [] [] v @ CHR '','' # ?more) = Some (v, CHR '','' # ?more)"
      by (rule element) (simp add: is_digit_def)
    then have "parse_elements (Suc n) acc (SerializeJSONProperty [] [] v @ CHR '','' # ?more)
                 = parse_elements n (v # acc) ?more"
      by (simp add: parse_elements_step is_json_ws_def)
    moreover have "parse_elements n (v # acc) ?more = Some (rev (v # acc) @ vs, rest)"
      using Cons.prems(1) False small(2) by (intro Cons.IH) auto
    ultimately show ?thesis
      using False by (simp add: fuel join_Cons)
  qed
qed

lemma parse_members_compact:
  assumes "\<And>p fuel rest. p \<in> set ps \<Longrightarrow> size (snd p) < fuel \<Longrightarrow> rest = [] \<or> \<not> is_digit (hd rest) \<Longrightarrow>
             parse_value fuel (SerializeJSONProperty [] [] (snd p) @ rest) = Some (snd p, rest)"
    and "ps \<noteq> []"
    and "size_list (size_prod (\<lambda>x. 0) size) ps < fuel"
  shows "parse_members fuel acc
           (join '',''
              (map (\<lambda>p. QuoteJSONString (fst p) @ '':'' @ SerializeJSONProperty [] [] (snd p)) ps)
            @ CHR ''}'' # rest)
         = Some (rev acc @ ps, rest)"
  using assms
proof (induction ps arbitrary: fuel acc)
  case Nil
  then show ?case by simp
next
  case (Cons p ps)
  obtain k v where p: "p = (k, v)" by (cases p)
  from Cons.prems(3) obtain n where fuel: "fuel = Suc n" by (cases fuel) auto
  from Cons.prems(3) have small: "size v < n" "size_list (size_prod (\<lambda>x. 0) size) ps < n"
    by (simp_all add: fuel p)
  have element: "parse_value n (SerializeJSONProperty [] [] v @ d # ds) = Some (v, d # ds)"
    if "\<not> is_digit d" for d ds
    using Cons.prems(1) [of p n "d # ds"] small that by (simp add: p)
  have key: "parse_string_chars [] (concat (map quote_char k) @ CHR 0x22 # CHR '':'' # ds)
               = Some (k, CHR '':'' # ds)" for ds
    by (simp add: quoted_chars_read)
  show ?case
  proof (cases "ps = []")
    case True
    have "parse_value n (SerializeJSONProperty [] [] v @ CHR ''}'' # rest) = Some (v, CHR ''}'' # rest)"
      by (rule element) (simp add: is_digit_def)
    with key have "parse_members (Suc n) acc
        (CHR 0x22 # (concat (map quote_char k) @ CHR 0x22 # CHR '':'' #
           (SerializeJSONProperty [] [] v @ CHR ''}'' # rest)))
         = Some (rev ((k, v) # acc), rest)"
      by (simp add: parse_members_step is_json_ws_def)
    then show ?thesis by (simp add: True fuel p QuoteJSONString_def)
  next
    case False
    let ?more = "join '',''
              (map (\<lambda>p. QuoteJSONString (fst p) @ '':'' @ SerializeJSONProperty [] [] (snd p)) ps)
            @ CHR ''}'' # rest"
    have "parse_value n (SerializeJSONProperty [] [] v @ CHR '','' # ?more) = Some (v, CHR '','' # ?more)"
      by (rule element) (simp add: is_digit_def)
    with key have "parse_members (Suc n) acc
        (CHR 0x22 # (concat (map quote_char k) @ CHR 0x22 # CHR '':'' #
           (SerializeJSONProperty [] [] v @ CHR '','' # ?more)))
         = parse_members n ((k, v) # acc) ?more"
      by (simp add: parse_members_step is_json_ws_def)
    moreover have "parse_members n ((k, v) # acc) ?more = Some (rev ((k, v) # acc) @ ps, rest)"
      using Cons.prems(1) False small(2) by (intro Cons.IH) auto
    ultimately show ?thesis
      using False by (simp add: fuel p join_Cons QuoteJSONString_def)
  qed
qed


lemma parse_value_compact:
  "size v < fuel \<Longrightarrow> rest = [] \<or> \<not> is_digit (hd rest) \<Longrightarrow>
   parse_value fuel (SerializeJSONProperty [] [] v @ rest) = Some (v, rest)"
proof (induction v arbitrary: fuel rest)
  case JNull
  then obtain n where "fuel = Suc n" by (cases fuel) auto
  then show ?case by (simp add: parse_value.simps is_json_ws_def)
next
  case (JBool b)
  then obtain n where "fuel = Suc n" by (cases fuel) auto
  then show ?case by (cases b) (simp_all add: parse_value.simps is_json_ws_def)
next
  case (JNumber i)
  then obtain n where "fuel = Suc n" by (cases fuel) auto
  with JNumber.prems(2) show ?case by (simp add: parse_value_number)
next
  case (JString s)
  then obtain n where "fuel = Suc n" by (cases fuel) auto
  then show ?case
    by (simp add: parse_value.simps is_json_ws_def QuoteJSONString_def quoted_chars_read)
next
  case (JArray vs)
  from JArray.prems(1) obtain n where fuel: "fuel = Suc n" by (cases fuel) auto
  show ?case
  proof (cases "vs = []")
    case True
    then show ?thesis by (simp add: fuel compact_array parse_value.simps is_json_ws_def)
  next
    case False
    then obtain v vs' where vs: "vs = v # vs'" by (cases vs) auto
    obtain c cs where head: "SerializeJSONProperty [] [] v = c # cs" "\<not> is_json_ws c"
      "c \<noteq> CHR '']''"
      using compact_head [of v] by blast
    let ?inner = "join '','' (map (SerializeJSONProperty [] []) vs) @ CHR '']'' # rest"
    have read: "parse_elements n [] ?inner = Some (rev [] @ vs, rest)"
      using JArray.IH False JArray.prems(1) by (intro parse_elements_compact) (auto simp add: fuel)
    obtain ds where inner: "?inner = c # ds"
      by (cases "vs' = []") (simp_all add: vs join_Cons head)
    have "parse_value (Suc n) (CHR ''['' # ?inner) = Some (JArray vs, rest)"
      unfolding inner using head(2,3) read [unfolded inner]
      by (simp add: parse_value_array_start)
    then show ?thesis using False by (simp add: fuel compact_array)
  qed
next
  case (JObject ps)
  from JObject.prems(1) obtain n where fuel: "fuel = Suc n" by (cases fuel) auto
  show ?case
  proof (cases "ps = []")
    case True
    then show ?thesis by (simp add: fuel compact_object parse_value.simps is_json_ws_def)
  next
    case False
    then obtain p ps' where ps: "ps = p # ps'" by (cases ps) auto
    let ?inner = "join '',''
               (map (\<lambda>p. QuoteJSONString (fst p) @ '':'' @ SerializeJSONProperty [] [] (snd p)) ps)
             @ CHR ''}'' # rest"
    have read: "parse_members n [] ?inner = Some (rev [] @ ps, rest)"
    proof (intro parse_members_compact)
      show "parse_value fuel (SerializeJSONProperty [] [] (snd p) @ rest) = Some (snd p, rest)"
        if "p \<in> set ps" "size (snd p) < fuel" "rest = [] \<or> \<not> is_digit (hd rest)"
        for p fuel rest
        using JObject.IH [of p "snd p" fuel rest] that by (cases p) auto
      show "ps \<noteq> []" by (rule False)
      show "size_list (size_prod (\<lambda>x. 0) size) ps < n"
        using JObject.prems(1) by (simp add: fuel)
    qed
    obtain ds where inner: "?inner = CHR 0x22 # ds"
      by (cases "ps' = []") (simp_all add: ps join_Cons QuoteJSONString_def)
    have "parse_value (Suc n) (CHR ''{'' # ?inner) = Some (JObject ps, rest)"
      unfolding inner using read [unfolded inner]
      by (simp add: parse_value_object_start)
    then show ?thesis using False by (simp add: fuel compact_object)
  qed
qed

lemma join_length_lower: "sum_list (map length xs) \<le> length (join sep xs)"
  by (induction sep xs rule: join.induct) simp_all

lemma size_list_bound:
  "(\<And>x. x \<in> set xs \<Longrightarrow> Suc (f x) \<le> 2 * g x) \<Longrightarrow> size_list f xs \<le> 2 * sum_list (map g xs)"
proof (induction xs)
  case Nil
  show ?case by simp
next
  case (Cons a xs)
  have "Suc (f a) \<le> 2 * g a" by (rule Cons.prems) simp
  moreover have "size_list f xs \<le> 2 * sum_list (map g xs)"
    by (rule Cons.IH) (simp add: Cons.prems)
  ultimately show ?case by simp
qed

lemma compact_size: "Suc (size v) \<le> 2 * length (SerializeJSONProperty [] [] v)"
proof (induction v)
  case (JNumber i)
  obtain c cs where "toString_int i = c # cs" using toString_int_head by blast
  then show ?case by simp
next
  case (JArray vs)
  have "size_list size vs \<le> 2 * sum_list (map (\<lambda>v. length (SerializeJSONProperty [] [] v)) vs)"
    by (rule size_list_bound) (rule JArray.IH)
  also have "sum_list (map (\<lambda>v. length (SerializeJSONProperty [] [] v)) vs)
               \<le> length (join '','' (map (SerializeJSONProperty [] []) vs))"
    using join_length_lower [of "map (SerializeJSONProperty [] []) vs" "'',''"]
    by (simp add: comp_def)
  finally show ?case by (simp add: compact_array)
next
  case (JObject ps)
  let ?member = "\<lambda>p. QuoteJSONString (fst p) @ '':'' @ SerializeJSONProperty [] [] (snd p)"
  have "size_list (size_prod (\<lambda>x. 0) size) ps \<le> 2 * sum_list (map (\<lambda>p. length (?member p)) ps)"
  proof (rule size_list_bound)
    fix p assume member: "p \<in> set ps"
    obtain k v where p: "p = (k, v)" by (cases p)
    have "Suc (size v) \<le> 2 * length (SerializeJSONProperty [] [] v)"
      by (rule JObject.IH [OF member]) (simp add: p)
    then show "Suc (size_prod (\<lambda>x. 0) size p) \<le> 2 * length (?member p)"
      by (simp add: p QuoteJSONString_def)
  qed
  also have "sum_list (map (\<lambda>p. length (?member p)) ps) \<le> length (join '','' (map ?member ps))"
    using join_length_lower [of "map ?member ps" "'',''"]
    by (simp add: comp_def)
  finally show ?case by (simp add: compact_object)
qed (simp_all add: QuoteJSONString_def)

lemma JSON_parse_stringify: "JSON_parse (JSON_stringify v 0) = Some v"
proof -
  have "size v < 2 * length (SerializeJSONProperty [] [] v) + 2"
    using compact_size [of v] by simp
  then have "parse_value (2 * length (SerializeJSONProperty [] [] v) + 2)
               (SerializeJSONProperty [] [] v @ []) = Some (v, [])"
    by (rule parse_value_compact) simp
  then show ?thesis by (simp add: JSON_parse_def JSON_stringify_def)
qed

declare SerializeJSONProperty.simps(5,6) [simp]
declare parse_value.simps(2) [simp] parse_elements.simps(2) [simp] parse_members.simps(2) [simp]

subsection \<open>Sending\<close>

text \<open>
  C1. A send that passes its precondition and whose request succeeds without an error
  field (absent, or empty and so falsy) appends exactly two messages in order, the
  user's and then the bot's, whose text is the response's message; afterwards the chat
  history is exactly the response's \<^verbatim>\<open>chat_history\<close>, whatever it was before.
\<close>

theorem send_success:
  assumes "\<not> send_blocked s"
    and "axios_post (API_URL env @ ''/chat'') (formData s) = Inr data"
    and "resp_error data = None \<or> resp_error data = Some []"
  shows "\<exists>s' effs. handleSendMessage env axios_post s = Inr (s', effs)
           \<and> messages s' = messages s @ [userMessage env s, botResponse env data]
           \<and> sender_of (userMessage env s) = User
           \<and> sender_of (botResponse env data) = Bot
           \<and> text_of (botResponse env data) = resp_message data
           \<and> chatHistory s' = resp_chat_history data"
  using assms
  by (simp add: handleSendMessage_def dispatch_passes settle_success userMessage_def
        botResponse_def)

theorem send_success_witness:
  "\<not> send_blocked asking_state
   \<and> (\<exists>s' effs. handleSendMessage example_env backend_answers asking_state = Inr (s', effs)
         \<and> map text_of (messages s') = [greeting, ''show slow queries'', ''Query X is slow'']
         \<and> map sender_of (messages s') = [Bot, User, Bot]
         \<and> chatHistory asking_state = []
         \<and> chatHistory s' =
             [JObject [(''role'', JString ''user''), (''content'', JString ''show slow queries'')],
              JObject [(''role'', JString ''assistant''),
                       (''content'', JString ''Query X is slow'')]])"
proof -
  have reply: "backend_answers (API_URL example_env @ ''/chat'') (formData asking_state)
                 = Inr slow_query_response"
    by (simp add: backend_answers_def)
  have no_error: "resp_error slow_query_response = None \<or> resp_error slow_query_response = Some []"
    by (simp add: slow_query_response_def)
  obtain s' effs where
    run: "handleSendMessage example_env backend_answers asking_state = Inr (s', effs)"
    and log: "messages s' = messages asking_state
                @ [userMessage example_env asking_state, botResponse example_env slow_query_response]"
    and hist: "chatHistory s' = resp_chat_history slow_query_response"
    using send_success [where s = asking_state and axios_post = backend_answers
        and env = example_env and data = slow_query_response,
        OF asking_state_not_blocked reply no_error]
    by blast
  have "map text_of (messages s') = [greeting, ''show slow queries'', ''Query X is slow'']"
    by (simp add: log asking_state_def initial_state_def userMessage_def botResponse_def
          slow_query_response_def)
  moreover have "map sender_of (messages s') = [Bot, User, Bot]"
    by (simp add: log asking_state_def initial_state_def userMessage_def botResponse_def)
  moreover have "chatHistory asking_state = []"
    by (simp add: asking_state_def initial_state_def)
  moreover have "chatHistory s' =
             [JObject [(''role'', JString ''user''), (''content'', JString ''show slow queries'')],
              JObject [(''role'', JString ''assistant''),
                       (''content'', JString ''Query X is slow'')]]"
    by (simp add: hist slow_query_response_def)
  ultimately show ?thesis
    using asking_state_not_blocked run by simp
qed

text \<open>
  C2. A send that passes its precondition and fails, because the request threw (a
  network failure or a status outside 2xx) or because the response carries a non-empty
  error field, appends exactly two messages, the user's and one from the bot that
  reports the failure; the chat history stays what it was, the in-flight flag is
  cleared, and the handler ends normally: no exception leaves it. The error field and
  the thrown error go the same way and differ only in the message reported.
\<close>

theorem send_failure:
  assumes "\<not> send_blocked s"
    and "axios_post (API_URL env @ ''/chat'') (formData s) = reply"
    and "reply = Inl error
         \<or> (\<exists>data em. reply = Inr data \<and> resp_error data = Some em \<and> em \<noteq> []
                \<and> error = Error em)"
  shows "\<exists>s' effs. handleSendMessage env axios_post s = Inr (s', effs)
           \<and> messages s' = messages s @ [userMessage env s, errorMessage env error]
           \<and> sender_of (userMessage env s) = User
           \<and> sender_of (errorMessage env error) = Bot
           \<and> text_of (errorMessage env error) =
               ''Sorry, I encountered an error: ''
               @ (case error of Error m \<Rightarrow> m | NonError \<Rightarrow> ''Unknown error'')
               @ ''. Please make sure the backend server is running.''
           \<and> chatHistory s' = chatHistory s
           \<and> isLoading s' = False"
proof -
  have senders:
    "sender_of (userMessage env s) = User" "sender_of (errorMessage env error) = Bot"
    by (simp_all add: userMessage_def errorMessage_def)
  have report: "text_of (errorMessage env error) =
               ''Sorry, I encountered an error: ''
               @ (case error of Error m \<Rightarrow> m | NonError \<Rightarrow> ''Unknown error'')
               @ ''. Please make sure the backend server is running.''"
    by (simp add: errorMessage_def)
  from assms(3) show ?thesis
  proof
    assume "reply = Inl error"
    with assms(1,2) senders report show ?thesis
      by (simp add: handleSendMessage_def dispatch_passes settle_thrown)
  next
    assume "\<exists>data em. reply = Inr data \<and> resp_error data = Some em \<and> em \<noteq> []
              \<and> error = Error em"
    then obtain data em where "reply = Inr data" "resp_error data = Some em" "em \<noteq> []"
      "error = Error em" by blast
    with assms(1,2) senders report show ?thesis
      by (simp add: handleSendMessage_def dispatch_passes settle_error_field)
  qed
qed

theorem send_failure_witness:
  "\<not> send_blocked asking_state
   \<and> (\<exists>s' effs. handleSendMessage example_env backend_reports_error asking_state = Inr (s', effs)
         \<and> map text_of (messages s') =
             [greeting, ''show slow queries'',
              ''Sorry, I encountered an error: No logs uploaded. Please make sure the backend server is running.'']
         \<and> map sender_of (messages s') = [Bot, User, Bot]
         \<and> chatHistory s' = chatHistory asking_state
         \<and> isLoading s' = False)"
proof -
  have reply: "backend_reports_error (API_URL example_env @ ''/chat'') (formData asking_state)
                 = Inr error_response"
    by (simp add: backend_reports_error_def)
  have failed: "Inr error_response = Inl (Error ''No logs uploaded'')
         \<or> (\<exists>data em. Inr error_response = Inr data \<and> resp_error data = Some em \<and> em \<noteq> []
                \<and> Error ''No logs uploaded'' = Error em)"
    by (simp add: error_response_def)
  obtain s' effs where
    run: "handleSendMessage example_env backend_reports_error asking_state = Inr (s', effs)"
    and log: "messages s' = messages asking_state
                @ [userMessage example_env asking_state,
                   errorMessage example_env (Error ''No logs uploaded'')]"
    and rest: "chatHistory s' = chatHistory asking_state" "isLoading s' = False"
    using send_failure [where s = asking_state and axios_post = backend_reports_error
        and env = example_env and reply = "Inr error_response"
        and error = "Error ''No logs uploaded''",
        OF asking_state_not_blocked reply failed]
    by blast
  have "map text_of (messages s') =
             [greeting, ''show slow queries'',
              ''Sorry, I encountered an error: No logs uploaded. Please make sure the backend server is running.'']"
    by (simp add: log asking_state_def initial_state_def userMessage_def errorMessage_def)
  moreover have "map sender_of (messages s') = [Bot, User, Bot]"
    by (simp add: log asking_state_def initial_state_def userMessage_def errorMessage_def)
  ultimately show ?thesis
    using asking_state_not_blocked run rest by simp
qed

text \<open>
  C3. In every state, the send handler does nothing, neither appending a message nor
  issuing a request nor changing any other part of the state, when the pending text is
  empty or all white space and no file is staged, or when a request is in flight.
\<close>

theorem send_noop:
  assumes "(list_all isWhiteSpace (inputValue s) \<and> selectedFiles s = []) \<or> isLoading s"
  shows "handleSendMessage_dispatch env s = None
         \<and> handleSendMessage env axios_post s = Inr (s, [])"
proof -
  from assms have "send_blocked s"
    by (auto simp add: send_blocked_def trim_empty_iff)
  then show ?thesis
    by (simp add: handleSendMessage_def handleSendMessage_dispatch_def)
qed

theorem send_noop_witness:
  "list_all isWhiteSpace (inputValue blank_state) \<and> selectedFiles blank_state = []
   \<and> handleSendMessage_dispatch example_env blank_state = None
   \<and> handleSendMessage example_env backend_answers blank_state = Inr (blank_state, [])"
proof -
  have blank: "list_all isWhiteSpace (inputValue blank_state) \<and> selectedFiles blank_state = []"
    by (simp add: blank_state_def initial_state_def isWhiteSpace_def)
  then have "(list_all isWhiteSpace (inputValue blank_state) \<and> selectedFiles blank_state = [])
               \<or> isLoading blank_state"
    by simp
  from send_noop [OF this, of example_env backend_answers] blank show ?thesis
    by simp
qed

text \<open>
  C5. A send that passes its precondition issues exactly one request. Its body carries
  the pending text as \<^verbatim>\<open>message\<close>; as \<^verbatim>\<open>chat_history\<close> the current chat history
  serialised as JSON, a text that reads back as exactly the array of the stored entries;
  and as \<^verbatim>\<open>file\<close> the first JSON-named staged file when there is one and no file
  otherwise: no other staged file is sent.
\<close>

theorem send_payload:
  assumes "\<not> send_blocked s"
  shows "\<exists>s' effs body. handleSendMessage env axios_post s = Inr (s', effs)
           \<and> requests effs = [(API_URL env @ ''/chat'', body)]
           \<and> fd_message body = inputValue s
           \<and> fd_chat_history body = JSON_stringify (JArray (chatHistory s)) 0
           \<and> JSON_parse (fd_chat_history body) = Some (JArray (chatHistory s))
           \<and> fd_file body = (case filter isJsonFile (selectedFiles s) of
                               [] \<Rightarrow> None | file # _ \<Rightarrow> Some file)"
proof -
  obtain s2 effs where settle:
    "handleSendMessage_settle env (axios_post (API_URL env @ ''/chat'') (formData s))
       (s\<lparr>messages := messages s @ [userMessage env s], inputValue := [],
           selectedFiles := [], isLoading := True\<rparr>) = Inr (s2, effs)"
    and quiet: "requests effs = []"
    using settle_no_requests by blast
  have sent: "handleSendMessage env axios_post s
                = Inr (s2, Post (API_URL env @ ''/chat'') (formData s) # effs)"
    using assms settle by (simp add: handleSendMessage_def dispatch_passes)
  have "fd_message (formData s) = inputValue s"
    by (simp add: formData_def)
  moreover have history: "fd_chat_history (formData s) = JSON_stringify (JArray (chatHistory s)) 0"
    by (simp add: formData_def)
  moreover have "JSON_parse (fd_chat_history (formData s)) = Some (JArray (chatHistory s))"
    unfolding history by (rule JSON_parse_stringify)
  moreover have "fd_file (formData s) = (case filter isJsonFile (selectedFiles s) of
                               [] \<Rightarrow> None | file # _ \<Rightarrow> Some file)"
    by (cases "selectedFiles s") (simp_all add: formData_def find_filter_conv)
  moreover have "requests (Post (API_URL env @ ''/chat'') (formData s) # effs)
                   = [(API_URL env @ ''/chat'', formData s)]"
    by (simp add: quiet)
  ultimately show ?thesis
    using sent by (intro exI [of _ s2] exI [of _ "Post (API_URL env @ ''/chat'') (formData s) # effs"]
                     exI [of _ "formData s"]) simp
qed

theorem send_payload_witness:
  \<open>\<not> send_blocked returning_state
   \<and> selectedFiles returning_state = [logs_json, queries_json, audit_json]
   \<and> chatHistory returning_state = earlier_history
   \<and> (\<exists>s' effs body.
         handleSendMessage example_env backend_answers returning_state = Inr (s', effs)
         \<and> requests effs = [(''http://127.0.0.1:8000/chat'', body)]
         \<and> fd_message body = ''and the inserts?''
         \<and> fd_chat_history body =
             ''[{"role":"user","content":"show '' @ [CHR 0x5C, CHR 0x22] @ ''slow''
             @ [CHR 0x5C, CHR 0x22]
             @ '' queries"},{"content":"Query X is slow","role":"assistant","turn":2}]''
         \<and> JSON_parse (fd_chat_history body) = Some (JArray earlier_history)
         \<and> fd_file body = Some logs_json)\<close>
proof -
  obtain s' effs body where
    run: "handleSendMessage example_env backend_answers returning_state = Inr (s', effs)"
    and sent: "requests effs = [(API_URL example_env @ ''/chat'', body)]"
    and message: "fd_message body = inputValue returning_state"
    and history: "fd_chat_history body = JSON_stringify (JArray (chatHistory returning_state)) 0"
    and reread: "JSON_parse (fd_chat_history body) = Some (JArray (chatHistory returning_state))"
    and attached: "fd_file body = (case filter isJsonFile (selectedFiles returning_state) of
                               [] \<Rightarrow> None | file # _ \<Rightarrow> Some file)"
    using send_payload [where s = returning_state and env = example_env
        and axios_post = backend_answers, OF returning_state_not_blocked]
    by blast
  have state: "selectedFiles returning_state = [logs_json, queries_json, audit_json]"
    "chatHistory returning_state = earlier_history"
    "inputValue returning_state = ''and the inserts?''"
    by (simp_all add: returning_state_def)
  have url: "API_URL example_env @ ''/chat'' = ''http://127.0.0.1:8000/chat''"
    by (simp add: API_URL_def example_env_def)
  have written: \<open>JSON_stringify (JArray earlier_history) 0 =
             ''[{"role":"user","content":"show '' @ [CHR 0x5C, CHR 0x22] @ ''slow''
             @ [CHR 0x5C, CHR 0x22]
             @ '' queries"},{"content":"Query X is slow","role":"assistant","turn":2}]''\<close>
    by (simp add: JSON_stringify_def earlier_history_def QuoteJSONString_def quote_char_def
          toString_int_def toString_nat.simps Let_def)
  have first: "fd_file body = Some logs_json"
    by (simp add: attached state isJsonFile_logs_json)
  from run sent message history reread first show ?thesis
    using returning_state_not_blocked
    by (simp add: state url written)
qed

text \<open>
  C6. When a send passes its precondition, the pending text and the staged files are
  already empty in the state the request is dispatched from, and they are empty in the
  state the handler ends in, whatever the request came to: the thrown error or the
  response, with or without an error field. Nothing restores them on failure.
\<close>

theorem send_clears_input:
  assumes "handleSendMessage_dispatch env s = Some (s1, body)"
  shows "inputValue s1 = [] \<and> selectedFiles s1 = []
         \<and> (\<exists>s2 effs. handleSendMessage_settle env reply s1 = Inr (s2, effs)
               \<and> inputValue s2 = [] \<and> selectedFiles s2 = [])
         \<and> (\<exists>s' effs. handleSendMessage env axios_post s = Inr (s', effs)
               \<and> inputValue s' = [] \<and> selectedFiles s' = [])"
proof -
  have cleared: "inputValue s1 = []" "selectedFiles s1 = []"
    using assms by (auto simp add: handleSendMessage_dispatch_def split: if_splits)
  have settle: "\<exists>s2 effs. handleSendMessage_settle env r s1 = Inr (s2, effs)
                  \<and> inputValue s2 = [] \<and> selectedFiles s2 = []" for r
    using cleared
    by (cases r)
       (auto simp add: handleSendMessage_settle_def try_block_def catch_block_def)
  obtain s' effs where
    "handleSendMessage_settle env (axios_post (API_URL env @ ''/chat'') body) s1 = Inr (s', effs)"
    "inputValue s' = []" "selectedFiles s' = []"
    using settle by blast
  then have "\<exists>s' effs. handleSendMessage env axios_post s = Inr (s', effs)
               \<and> inputValue s' = [] \<and> selectedFiles s' = []"
    using assms by (simp add: handleSendMessage_def)
  with cleared settle show ?thesis by blast
qed

theorem send_clears_input_witness:
  "inputValue attaching_state = ''what is slow here?''
   \<and> selectedFiles attaching_state = [logs_json]
   \<and> (\<exists>s1 body. handleSendMessage_dispatch example_env attaching_state = Some (s1, body)
         \<and> inputValue s1 = [] \<and> selectedFiles s1 = []
         \<and> (\<exists>s2 effs. handleSendMessage_settle example_env (Inl (Error ''Network Error'')) s1
                          = Inr (s2, effs)
               \<and> inputValue s2 = [] \<and> selectedFiles s2 = [])
         \<and> (\<exists>s' effs. handleSendMessage example_env backend_unreachable attaching_state
                          = Inr (s', effs)
               \<and> inputValue s' = [] \<and> selectedFiles s' = []))"
proof -
  have before: "inputValue attaching_state = ''what is slow here?''"
    "selectedFiles attaching_state = [logs_json]"
    by (simp_all add: attaching_state_def)
  have dispatched: "handleSendMessage_dispatch example_env attaching_state =
     Some (attaching_state\<lparr>messages := messages attaching_state
                                @ [userMessage example_env attaching_state],
             inputValue := [], selectedFiles := [], isLoading := True\<rparr>,
           formData attaching_state)"
    using attaching_state_not_blocked by (rule dispatch_passes)
  from send_clears_input [OF dispatched, of "Inl (Error ''Network Error'')" backend_unreachable]
    before dispatched
  show ?thesis by blast
qed

subsection \<open>Staging files\<close>

text \<open>
  C4, as the code has it. The statement that after every call the staged files are the
  JSON-named files of the latest selection fails when that selection is not empty and
  holds no JSON-named file: the handler raises the alert and returns before
  setting the staged files, so they stay what they were. Here \<^verbatim>\<open>logs.JSON\<close> is
  staged first and \<^verbatim>\<open>notes.txt\<close> is selected next; \<^verbatim>\<open>logs.JSON\<close> stays staged,
  although the latest selection has no JSON-named file.
\<close>

theorem stageFiles_latest_counterexample:
  "selectedFiles
     (run (initial_state 0) [FileSelect (Some [logs_json]), FileSelect (Some [notes_txt])])
     = [logs_json]
   \<and> filter isJsonFile [notes_txt] = []
   \<and> selectedFiles
       (run (initial_state 0) [FileSelect (Some [logs_json]), FileSelect (Some [notes_txt])])
     \<noteq> filter isJsonFile [notes_txt]"
  by (simp add: run_def handleFileSelect_def isJsonFile_logs_json not_isJsonFile_notes_txt
        initial_state_def)

text \<open>
  C4, amended. After any sequence of selections, one more selection either is rejected
  (it is not empty and holds no JSON-named file): then the alert is raised and the
  staged files are left as they were; or it is accepted: then the staged files are
  exactly the JSON-named files of that selection, in its order, with nothing kept from
  earlier selections.
\<close>

theorem stageFiles_latest_accepted:
  "run s (map FileSelect (sels @ [Some sel]))
     = fst (handleFileSelect (Some sel) (run s (map FileSelect sels)))
   \<and> (if sel \<noteq> [] \<and> filter isJsonFile sel = []
       then selectedFiles (run s (map FileSelect (sels @ [Some sel])))
              = selectedFiles (run s (map FileSelect sels))
            \<and> snd (handleFileSelect (Some sel) (run s (map FileSelect sels)))
              = [Alert ''Please select only JSON files containing database logs.'']
       else selectedFiles (run s (map FileSelect (sels @ [Some sel])))
              = filter isJsonFile sel
            \<and> snd (handleFileSelect (Some sel) (run s (map FileSelect sels)))
              = [ResetFileInput])"
proof (cases "sel \<noteq> [] \<and> filter isJsonFile sel = []")
  case True
  then show ?thesis by (simp add: run_snoc handleFileSelect_rejects)
next
  case False
  then have "handleFileSelect (Some sel) (run s (map FileSelect sels)) =
      ((run s (map FileSelect sels))\<lparr>selectedFiles := filter isJsonFile sel\<rparr>,
       [ResetFileInput])"
    by (rule handleFileSelect_accepts)
  with False show ?thesis by (simp add: run_snoc)
qed

text \<open>
  C8. Removing a staged file by an index within bounds removes exactly the file at that
  position and keeps the others in their order; an index out of bounds (negative, or
  the length and beyond) leaves the staged files as they are. The message log and the
  chat history are not touched.
\<close>

theorem removeFile_by_position:
  "selectedFiles (fst (removeFile index s)) =
     (if 0 \<le> index \<and> index < int (length (selectedFiles s))
      then take (nat index) (selectedFiles s) @ drop (Suc (nat index)) (selectedFiles s)
      else selectedFiles s)
   \<and> messages (fst (removeFile index s)) = messages s
   \<and> chatHistory (fst (removeFile index s)) = chatHistory s"
  by (simp add: removeFile_def filter_from_skip)

subsection \<open>The message log\<close>

text \<open>
  C7. The message log only grows at its end: after any sequence of events (selecting
  and removing files, typing, the template banner and its export, copying a message,
  sending by the button or the Enter key, whether the send succeeds or fails and
  whatever happens while the request is in flight) the log before is a prefix of the log after. No event changes, reorders or
  removes a message; the log is only ever reset by a fresh load.
\<close>

theorem log_append_only: "prefix (messages s) (messages (run s evs))"
proof (induction evs rule: rev_induct)
  case Nil
  show ?case by (simp add: run_def)
next
  case (snoc e evs)
  have "prefix (messages (run s evs)) (messages (step (run s evs) e))"
    by (rule step_extends_log)
  with snoc show ?case
    unfolding run_snoc by (rule prefix_order.trans)
qed

subsection \<open>The template\<close>

text \<open>The text of the template, record by record and then as a whole.\<close>

lemma template_record_first:
  \<open>SerializeJSONProperty ''  '' ''    ''
     (JObject [(''id'', JNumber 1),
              (''query'', JString ''SELECT * FROM users WHERE email LIKE '%gmail.com%';''),
              (''duration_ms'', JNumber 1200), (''rows'', JNumber 10000), (''calls'', JNumber 50)]) =
   ''{\<newline>      "id": 1,\<newline>      "query": "SELECT * FROM users WHERE email LIKE '%gmail.com%';",\<newline>      "duration_ms": 1200,\<newline>      "rows": 10000,\<newline>      "calls": 50\<newline>    }''\<close>
  by (simp add: QuoteJSONString_def quote_char_def toString_int_def toString_nat.simps Let_def)

lemma template_record_second:
  \<open>SerializeJSONProperty ''  '' ''    ''
     (JObject [(''id'', JNumber 2),
              (''query'', JString ''INSERT INTO orders (id, amount) VALUES (1, 500);''),
              (''duration_ms'', JNumber 15), (''rows'', JNumber 1), (''calls'', JNumber 200)]) =
   ''{\<newline>      "id": 2,\<newline>      "query": "INSERT INTO orders (id, amount) VALUES (1, 500);",\<newline>      "duration_ms": 15,\<newline>      "rows": 1,\<newline>      "calls": 200\<newline>    }''\<close>
  by (simp add: QuoteJSONString_def quote_char_def toString_int_def toString_nat.simps Let_def)

lemma template_record_third:
  \<open>SerializeJSONProperty ''  '' ''    ''
     (JObject [(''id'', JNumber 3),
              (''query'', JString ''SELECT id, name FROM products WHERE category_id = 5;''),
              (''duration_ms'', JNumber 130), (''rows'', JNumber 300), (''calls'', JNumber 80)]) =
   ''{\<newline>      "id": 3,\<newline>      "query": "SELECT id, name FROM products WHERE category_id = 5;",\<newline>      "duration_ms": 130,\<newline>      "rows": 300,\<newline>      "calls": 80\<newline>    }''\<close>
  by (simp add: QuoteJSONString_def quote_char_def toString_int_def toString_nat.simps Let_def)

lemma template_frame:
  \<open>JSON_stringify (JObject [(''logs'', JArray [a, b, c])]) 2 =
     ''{\<newline>  "logs": [\<newline>    '' @ SerializeJSONProperty ''  '' ''    '' a
     @ '',\<newline>    '' @ SerializeJSONProperty ''  '' ''    '' b
     @ '',\<newline>    '' @ SerializeJSONProperty ''  '' ''    '' c
     @ ''\<newline>  ]\<newline>}''\<close>
  by (simp add: JSON_stringify_def QuoteJSONString_def quote_char_def Let_def numeral_2_eq_2)

lemma template_text:
  \<open>JSON_stringify jsonTemplate 2 =
   ''{\<newline>  "logs": [\<newline>    {\<newline>      "id": 1,\<newline>      "query": "SELECT * FROM users WHERE email LIKE '%gmail.com%';",\<newline>      "duration_ms": 1200,\<newline>      "rows": 10000,\<newline>      "calls": 50\<newline>    },\<newline>    {\<newline>      "id": 2,\<newline>      "query": "INSERT INTO orders (id, amount) VALUES (1, 500);",\<newline>      "duration_ms": 15,\<newline>      "rows": 1,\<newline>      "calls": 200\<newline>    },\<newline>    {\<newline>      "id": 3,\<newline>      "query": "SELECT id, name FROM products WHERE category_id = 5;",\<newline>      "duration_ms": 130,\<newline>      "rows": 300,\<newline>      "calls": 80\<newline>    }\<newline>  ]\<newline>}''\<close>
  unfolding jsonTemplate_def template_frame template_record_first template_record_second
    template_record_third
  by simp

lemma template_text_parses:
  \<open>JSON_parse
     ''{\<newline>  "logs": [\<newline>    {\<newline>      "id": 1,\<newline>      "query": "SELECT * FROM users WHERE email LIKE '%gmail.com%';",\<newline>      "duration_ms": 1200,\<newline>      "rows": 10000,\<newline>      "calls": 50\<newline>    },\<newline>    {\<newline>      "id": 2,\<newline>      "query": "INSERT INTO orders (id, amount) VALUES (1, 500);",\<newline>      "duration_ms": 15,\<newline>      "rows": 1,\<newline>      "calls": 200\<newline>    },\<newline>    {\<newline>      "id": 3,\<newline>      "query": "SELECT id, name FROM products WHERE category_id = 5;",\<newline>      "duration_ms": 130,\<newline>      "rows": 300,\<newline>      "calls": 80\<newline>    }\<newline>  ]\<newline>}''
   = Some jsonTemplate\<close>
  by code_simp

text \<open>
  C9. Copying the template and downloading it produce the same text, character for
  character; that text reads back as an object whose only property \<^verbatim>\<open>logs\<close> is an
  array of exactly three objects, each with exactly the properties \<^verbatim>\<open>id\<close>,
  \<^verbatim>\<open>query\<close>, \<^verbatim>\<open>duration_ms\<close>, \<^verbatim>\<open>rows\<close> and \<^verbatim>\<open>calls\<close>. Neither
  handler changes the session state, and what each does is the same in every state.
\<close>

theorem template_export:
  "\<exists>t logs.
     clipboard_texts (snd (copyJsonTemplate rejected s)) = [t]
     \<and> downloaded_texts (snd (downloadJsonTemplate s)) = [t]
     \<and> JSON_parse t = Some (JObject [(''logs'', JArray logs)])
     \<and> length logs = 3
     \<and> map property_names logs =
         replicate 3 (Some [''id'', ''query'', ''duration_ms'', ''rows'', ''calls''])
     \<and> fst (copyJsonTemplate rejected s) = s
     \<and> fst (downloadJsonTemplate s) = s
     \<and> snd (copyJsonTemplate rejected s) = snd (copyJsonTemplate rejected s')
     \<and> snd (downloadJsonTemplate s) = snd (downloadJsonTemplate s')"
proof -
  have parsed: "JSON_parse (JSON_stringify jsonTemplate 2) = Some jsonTemplate"
    by (simp only: template_text template_text_parses)
  have written: "clipboard_texts (snd (copyJsonTemplate rejected s)) = [JSON_stringify jsonTemplate 2]"
    by (cases rejected) (simp_all add: copyJsonTemplate_def)
  have saved: "downloaded_texts (snd (downloadJsonTemplate s)) = [JSON_stringify jsonTemplate 2]"
    by (simp add: downloadJsonTemplate_def)
  have untouched: "fst (copyJsonTemplate rejected s) = s" "fst (downloadJsonTemplate s) = s"
    "snd (copyJsonTemplate rejected s) = snd (copyJsonTemplate rejected s')"
    "snd (downloadJsonTemplate s) = snd (downloadJsonTemplate s')"
    by (simp_all add: copyJsonTemplate_def downloadJsonTemplate_def)
  obtain logs where shape: "jsonTemplate = JObject [(''logs'', JArray logs)]"
    and three: "length logs = 3"
    and names: "map property_names logs =
         replicate 3 (Some [''id'', ''query'', ''duration_ms'', ''rows'', ''calls''])"
    by (simp add: jsonTemplate_def numeral_3_eq_3)
  from written saved parsed untouched three names show ?thesis
    unfolding shape by blast
qed

subsection \<open>Fresh load\<close>

text \<open>
  C10. On a fresh load the message log is not empty: it holds exactly one message, the
  greeting, authored by the bot and carrying no file attachments.
\<close>

theorem initial_log_is_greeting:
  "messages (initial_state now) \<noteq> []
   \<and> length (messages (initial_state now)) = 1
   \<and> map sender_of (messages (initial_state now)) = [Bot]
   \<and> map text_of (messages (initial_state now)) = [greeting]
   \<and> map files (messages (initial_state now)) = [None]"
  by (simp add: initial_state_def)

end
